theory Spec2Isabelle
  imports Main "HOL-Library.AList"
begin

section \<open>Errors and JavaScript values\<close>

text \<open>
  The source raises three kinds of failure: the \<^verbatim>\<open>TypeError\<close> of
  \<^verbatim>\<open>linkInjections\<close>/\<^verbatim>\<open>unlinkInjections\<close> for a host list that is not an array of
  strings, the two \<^verbatim>\<open>Error\<close>s of \<^verbatim>\<open>activateLanguage\<close> (no grammar registered for the
  scope; language id already bound, carrying the scope it is bound to), and the runtime
  type failure of JavaScript itself when a property of \<^verbatim>\<open>undefined\<close> or \<^verbatim>\<open>null\<close> is
  read. \<open>EngineError\<close> stands for a rejection coming out of the external grammar engine.
\<close>

datatype error =
    InvalidArgument
  | UnknownScope string
  | DuplicateBinding string string
  | RuntimeTypeError
  | EngineError

text \<open>
  The second argument of the injection functions is typed \<^verbatim>\<open>string[]\<close> but checked at run
  time, so the model takes any JavaScript value.
\<close>

datatype jsval =
    JUndefined
  | JNull
  | JBool bool
  | JNum int
  | JStr string
  | JArr "jsval list"

fun isString :: "jsval \<Rightarrow> bool" where
  "isString (JStr s) = True"
| "isString v = False"

fun isStringArray :: "jsval \<Rightarrow> bool" where
  "isStringArray (JArr vs) = list_all isString vs"
| "isStringArray v = False"

fun falsy :: "jsval \<Rightarrow> bool" where
  "falsy JUndefined = True"
| "falsy JNull = True"
| "falsy (JBool b) = (\<not> b)"
| "falsy (JNum n) = (n = 0)"
| "falsy (JStr s) = (s = [])"
| "falsy (JArr vs) = False"

fun strings_of :: "jsval list \<Rightarrow> string list" where
  "strings_of [] = []"
| "strings_of (JStr s # vs) = s # strings_of vs"
| "strings_of (v # vs) = strings_of vs"

fun elements :: "jsval \<Rightarrow> string list" where
  "elements (JArr vs) = strings_of vs"
| "elements v = []"

section \<open>The grammar registry (static part of class Highlighter)\<close>

text \<open>
  A JavaScript \<^verbatim>\<open>Set<string>\<close> keeps insertion order and no duplicates: a list, with
  \<open>set_add\<close> for \<^verbatim>\<open>add\<close> and \<open>set_delete\<close> for \<^verbatim>\<open>delete\<close>. The map
  \<^verbatim>\<open>scopeNameToInjections\<close> is iterated with \<^verbatim>\<open>forEach\<close>, so it is an association list
  in insertion order (\<open>AList.update\<close> replaces in place or appends, as \<^verbatim>\<open>Map.set\<close>
  does). The other three maps are only read and written by key.
\<close>

definition set_add :: "'a \<Rightarrow> 'a list \<Rightarrow> 'a list" where
  "set_add x xs = (if x \<in> set xs then xs else xs @ [x])"

definition set_delete :: "'a \<Rightarrow> 'a list \<Rightarrow> 'a list" where
  "set_delete x xs = removeAll x xs"

datatype registry = Registry

record 'src statics =
  scopeNameToInjections :: "(string \<times> string list) list"
  scopeNameToRawGrammars :: "string \<rightharpoonup> 'src"
  scopeNameToLanguageId :: "string \<rightharpoonup> string"
  languageIdToScopeName :: "string \<rightharpoonup> string"
  registry :: "registry option"

definition initial :: "'src statics" where
  "initial = \<lparr> scopeNameToInjections = [], scopeNameToRawGrammars = Map.empty,
     scopeNameToLanguageId = Map.empty, languageIdToScopeName = Map.empty,
     registry = None \<rparr>"

definition addGrammar :: "string \<Rightarrow> 'src \<Rightarrow> 'src statics \<Rightarrow> 'src statics" where
  "addGrammar scopeName grammar st =
     st\<lparr>scopeNameToRawGrammars := (scopeNameToRawGrammars st)(scopeName \<mapsto> grammar)\<rparr>"

subsection \<open>linkInjections\<close>

text \<open>The body of the \<^verbatim>\<open>forEach\<close> over the host scopes, and the loop itself.\<close>

definition link_body ::
  "string \<Rightarrow> string \<Rightarrow> 'src statics \<times> string list \<Rightarrow> 'src statics \<times> string list" where
  "link_body scopeName scope acc =
     (case acc of (st, affectedLanguages) \<Rightarrow>
       (st\<lparr>scopeNameToInjections :=
            (case map_of (scopeNameToInjections st) scope of
               Some injectionList \<Rightarrow>
                 AList.update scope (set_add scopeName injectionList) (scopeNameToInjections st)
             | None \<Rightarrow>
                 AList.update scope (set_add scopeName []) (scopeNameToInjections st))\<rparr>,
        (case scopeNameToLanguageId st scope of
           Some languageId \<Rightarrow> set_add languageId affectedLanguages
         | None \<Rightarrow> affectedLanguages)))"

fun link_each ::
  "string \<Rightarrow> string list \<Rightarrow> 'src statics \<times> string list \<Rightarrow> 'src statics \<times> string list" where
  "link_each scopeName [] acc = acc"
| "link_each scopeName (scope # scopes) acc =
     link_each scopeName scopes (link_body scopeName scope acc)"

definition linkInjections ::
  "string \<Rightarrow> jsval \<Rightarrow> 'src statics \<Rightarrow> (error + string list) \<times> 'src statics" where
  "linkInjections scopeName injectInto st =
     (if \<not> isStringArray injectInto then (Inl InvalidArgument, st)
      else (case link_each scopeName (elements injectInto) (st, []) of
              (st', affectedLanguages) \<Rightarrow>
                (Inr affectedLanguages, st'\<lparr>registry := None\<rparr>)))"

subsection \<open>unlinkInjections\<close>

text \<open>
  The two \<^verbatim>\<open>forEach\<close> loops over the entries of \<^verbatim>\<open>scopeNameToInjections\<close> differ only in
  the test on the host scope name; \<open>sel\<close> is that test. The result \<open>None\<close> is the
  \<^verbatim>\<open>undefined\<close> of the early \<^verbatim>\<open>return\<close>.
\<close>

fun unlink_each ::
  "string \<Rightarrow> (string \<Rightarrow> bool) \<Rightarrow> (string \<rightharpoonup> string) \<Rightarrow> (string \<times> string list) list \<Rightarrow>
   string list \<Rightarrow> (string \<times> string list) list \<times> string list" where
  "unlink_each scopeName sel langOf [] affectedLanguages = ([], affectedLanguages)"
| "unlink_each scopeName sel langOf ((hostScopeName, injectionList) # entries) affectedLanguages =
     (if sel hostScopeName \<and> scopeName \<in> set injectionList then
        (case unlink_each scopeName sel langOf entries
                (case langOf hostScopeName of
                   Some languageId \<Rightarrow> set_add languageId affectedLanguages
                 | None \<Rightarrow> affectedLanguages) of
           (entries', affected') \<Rightarrow>
             ((hostScopeName, set_delete scopeName injectionList) # entries', affected'))
      else
        (case unlink_each scopeName sel langOf entries affectedLanguages of
           (entries', affected') \<Rightarrow> ((hostScopeName, injectionList) # entries', affected')))"

definition unlinkInjections ::
  "string \<Rightarrow> jsval \<Rightarrow> 'src statics \<Rightarrow> (error + string list option) \<times> 'src statics" where
  "unlinkInjections scopeName injections st =
     (if map_of (scopeNameToInjections st) scopeName = None then (Inr None, st)
      else if falsy injections then
        (case unlink_each scopeName (\<lambda>h. True) (scopeNameToLanguageId st)
                (scopeNameToInjections st) [] of
           (entries', affectedLanguages) \<Rightarrow>
             (Inr (Some affectedLanguages),
              st\<lparr>scopeNameToInjections := entries', registry := None\<rparr>))
      else if \<not> isStringArray injections then (Inl InvalidArgument, st)
      else
        (case unlink_each scopeName (\<lambda>h. h \<in> set (elements injections))
                (scopeNameToLanguageId st) (scopeNameToInjections st) [] of
           (entries', affectedLanguages) \<Rightarrow>
             (Inr (Some affectedLanguages),
              st\<lparr>scopeNameToInjections := entries', registry := None\<rparr>)))"

subsection \<open>loadLanguage and activateLanguage\<close>

text \<open>
  \<^verbatim>\<open>loadLanguage\<close> has no \<^verbatim>\<open>throw\<close> and calls nothing that throws synchronously: it
  returns \<^verbatim>\<open>null\<close> (\<open>None\<close>) or the promise of \<^verbatim>\<open>registry.loadGrammar(scopeName)\<close>,
  which the model names by the scope it was asked for. \<^verbatim>\<open>!scopeName\<close> is also true of the
  empty string.
\<close>

definition initRegistry :: "'src statics \<Rightarrow> 'src statics" where
  "initRegistry st = st\<lparr>registry := Some Registry\<rparr>"

definition loadLanguage :: "string \<Rightarrow> 'src statics \<Rightarrow> string option \<times> 'src statics" where
  "loadLanguage languageId st =
     (case languageIdToScopeName st languageId of
        None \<Rightarrow> (None, st)
      | Some scopeName \<Rightarrow>
          if scopeName = [] \<or> scopeNameToRawGrammars st scopeName = None then (None, st)
          else (Some scopeName, if registry st = None then initRegistry st else st))"

definition hasLanguageRegistered :: "string \<Rightarrow> 'src statics \<Rightarrow> bool" where
  "hasLanguageRegistered languageId st = (languageIdToScopeName st languageId \<noteq> None)"

text \<open>
  The grammar engine (\<^verbatim>\<open>Registry\<close> of monaco-textmate) is not part of the repository.
  Awaiting the promise of \<^verbatim>\<open>loadGrammar\<close> either yields a compiled grammar or rejects, and
  the engine's callbacks may rewrite the registry maps meanwhile (grammar sources are
  normalised in place): the engine is a parameter giving the outcome and the state after.
  Awaiting \<^verbatim>\<open>null\<close> yields \<^verbatim>\<open>null\<close>.
\<close>

type_synonym ('src, 'g) engine = "'src statics \<Rightarrow> string \<Rightarrow> (error + 'g) \<times> 'src statics"

definition await_load ::
  "('src, 'g) engine \<Rightarrow> string option \<times> 'src statics \<Rightarrow> (error + 'g option) \<times> 'src statics" where
  "await_load eng r =
     (case r of
        (None, st) \<Rightarrow> (Inr None, st)
      | (Some scopeName, st) \<Rightarrow>
          (case eng st scopeName of
             (Inl e, st') \<Rightarrow> (Inl e, st')
           | (Inr g, st') \<Rightarrow> (Inr (Some g), st')))"

datatype load = Now | Asap | Defer

text \<open>
  \<^verbatim>\<open>activateLanguage\<close> is an \<^verbatim>\<open>async\<close> function: a \<^verbatim>\<open>throw\<close> is the rejection of its
  promise (\<open>Inl\<close>), a \<^verbatim>\<open>return\<close> its resolution (\<open>Inr\<close>). \<^verbatim>\<open>requestIdle()\<close> only waits
  (for an idle period or the timeout) and then resolves; the model takes the wait as
  already over, with no other caller running in between.
\<close>

definition activateLanguage ::
  "('src, 'g) engine \<Rightarrow> string \<Rightarrow> string \<Rightarrow> load \<Rightarrow> 'src statics \<Rightarrow>
   (error + bool) \<times> 'src statics" where
  "activateLanguage eng scopeName languageId ld st =
     (if scopeNameToRawGrammars st scopeName = None then (Inl (UnknownScope scopeName), st)
      else
        (case languageIdToScopeName st languageId of
           Some bound \<Rightarrow> (Inl (DuplicateBinding languageId bound), st)
         | None \<Rightarrow>
             (let st1 = st\<lparr>languageIdToScopeName := (languageIdToScopeName st)(languageId \<mapsto> scopeName),
                           scopeNameToLanguageId := (scopeNameToLanguageId st)(scopeName \<mapsto> languageId)\<rparr>
              in if ld = Now then
                   (case await_load eng (loadLanguage languageId st1) of
                      (Inl e, st2) \<Rightarrow> (Inl e, st2)
                    | (Inr g, st2) \<Rightarrow> (Inr True, st2))
                 else if ld = Asap then
                   (case await_load eng (loadLanguage languageId st1) of
                      (Inl e, st2) \<Rightarrow> (Inl e, st2)
                    | (Inr g, st2) \<Rightarrow> (Inr True, st2))
                 else (Inr False, st1))))"

text \<open>
  The \<^verbatim>\<open>getInjections\<close> callback handed to the engine by \<^verbatim>\<open>initRegistry\<close>: the
  injection set of a scope as an array, \<^verbatim>\<open>undefined\<close> when the scope has none.
  \<open>injections_of\<close> reads the same set for the statements below, empty when there is
  none.
\<close>

definition getInjections :: "string \<Rightarrow> 'src statics \<Rightarrow> string list option" where
  "getInjections scopeName st = map_of (scopeNameToInjections st) scopeName"


subsection \<open>Concrete registries and an engine for the examples\<close>

definition engine_ok :: "(unit, unit) engine" where
  "engine_ok st scopeName = (Inr (), st)"

definition engine_fail :: "(unit, unit) engine" where
  "engine_fail st scopeName = (Inl EngineError, st)"

definition js_bound :: "unit statics" where
  "js_bound = initial\<lparr>scopeNameToRawGrammars := [''source.js'' \<mapsto> ()],
     scopeNameToLanguageId := [''source.js'' \<mapsto> ''javascript''],
     languageIdToScopeName := [''javascript'' \<mapsto> ''source.js'']\<rparr>"

definition html_bound :: "unit statics" where
  "html_bound = initial\<lparr>scopeNameToRawGrammars := [''text.html'' \<mapsto> ()],
     scopeNameToLanguageId := [''text.html'' \<mapsto> ''html''],
     languageIdToScopeName := [''html'' \<mapsto> ''text.html''],
     scopeNameToInjections := [(''text.html'', [''source.css''])],
     registry := Some Registry\<rparr>"


definition empty_scope :: "unit statics" where
  "empty_scope = addGrammar [] () initial"

section \<open>The scope classifier (tmToCm)\<close>

text \<open>
  \<^verbatim>\<open>CmToken\<close> is a string enum; \<open>cmTokenValue\<close> gives the string of each member.
\<close>

datatype CmToken =
    Atom | Attribute | Bracket | Builtin | Comment | Def | Error | Header | HR | Keyword
  | Link | Meta | Number | Operator | Property | Qualifier | Quote | String | String2 | Tag
  | Type | Variable | Variable2 | Variable3

fun cmTokenValue :: "CmToken \<Rightarrow> string" where
  "cmTokenValue Atom = ''atom''"
| "cmTokenValue Attribute = ''attribute''"
| "cmTokenValue Bracket = ''bracket''"
| "cmTokenValue Builtin = ''builtin''"
| "cmTokenValue Comment = ''comment''"
| "cmTokenValue Def = ''def''"
| "cmTokenValue Error = ''error''"
| "cmTokenValue Header = ''header''"
| "cmTokenValue HR = ''hr''"
| "cmTokenValue Keyword = ''keyword''"
| "cmTokenValue Link = ''link''"
| "cmTokenValue Meta = ''meta''"
| "cmTokenValue Number = ''number''"
| "cmTokenValue Operator = ''operator''"
| "cmTokenValue Property = ''property''"
| "cmTokenValue Qualifier = ''qualifier''"
| "cmTokenValue Quote = ''quote''"
| "cmTokenValue String = ''string''"
| "cmTokenValue String2 = ''string-2''"
| "cmTokenValue Tag = ''tag''"
| "cmTokenValue Type = ''type''"
| "cmTokenValue Variable = ''variable''"
| "cmTokenValue Variable2 = ''variable-2''"
| "cmTokenValue Variable3 = ''variable-3''"

text \<open>
  The classification tree \<^verbatim>\<open>tmToCm\<close> is a nested object literal. A node is an object
  with an optional \<^verbatim>\<open>$\<close> entry and child objects under the other keys; one entry,
  \<^verbatim>\<open>keyword.other['special-method']\<close>, is a bare string instead of an object (\<open>Str\<close>):
  it is truthy, has no \<^verbatim>\<open>$\<close> and no child that carries one. Only the own keys of the
  literal are modelled; a scope segment that names an inherited property (such as
  \<^verbatim>\<open>constructor\<close>) is outside the model.
\<close>

datatype tree = Obj "CmToken option" "(string \<times> tree) list" | Str CmToken

fun dollar :: "tree \<Rightarrow> CmToken option" where
  "dollar (Obj d children) = d"
| "dollar (Str s) = None"

fun child :: "tree \<Rightarrow> string \<Rightarrow> tree option" where
  "child (Obj d children) key = map_of children key"
| "child (Str s) key = None"

definition tmToCm :: tree where
  "tmToCm = Obj None [
     (''comment'', Obj (Some Comment) []),
     (''constant'', Obj (Some Def) [
        (''character'', Obj None [(''escape'', Obj (Some String2) [])]),
        (''language'', Obj (Some Atom) []),
        (''numeric'', Obj (Some Number) []),
        (''other'', Obj None [
           (''email'', Obj None [(''link'', Obj (Some Link) [])]),
           (''symbol'', Obj (Some Def) [])])]),
     (''entity'', Obj None [
        (''name'', Obj None [
           (''class'', Obj (Some Def) []),
           (''function'', Obj (Some Def) []),
           (''tag'', Obj (Some Tag) []),
           (''type'', Obj (Some Type) [(''class'', Obj (Some Variable) [])])]),
        (''other'', Obj None [
           (''attribute-name'', Obj (Some Attribute) []),
           (''inherited-class'', Obj (Some Def) [])]),
        (''support'', Obj None [(''function'', Obj (Some Def) [])])]),
     (''keyword'', Obj (Some Keyword) [
        (''operator'', Obj (Some Operator) []),
        (''other'', Obj None [(''special-method'', Str Def)])]),
     (''punctuation'', Obj (Some Operator) [
        (''definition'', Obj None [
           (''comment'', Obj (Some Comment) []),
           (''tag'', Obj (Some Bracket) [])])]),
     (''storage'', Obj (Some Keyword) []),
     (''string'', Obj (Some String) [(''regexp'', Obj (Some String2) [])]),
     (''support'', Obj None [
        (''class'', Obj (Some Def) []),
        (''constant'', Obj (Some Variable2) []),
        (''function'', Obj (Some Def) []),
        (''type'', Obj (Some Type) []),
        (''variable'', Obj (Some Variable2) [(''property'', Obj (Some Property) [])])]),
     (''variable'', Obj (Some Def) [
        (''language'', Obj (Some Variable3) []),
        (''other'', Obj None [
           (''object'', Obj (Some Variable) [(''property'', Obj (Some Property) [])]),
           (''property'', Obj (Some Property) [])]),
        (''parameter'', Obj (Some Def) [])])]"

text \<open>
  \<^verbatim>\<open>walk\<close> shifts the first segment off the array and looks it up in the current node;
  on an empty array \<^verbatim>\<open>shift\<close> gives \<^verbatim>\<open>undefined\<close>, which no node has as a key.
  \<^verbatim>\<open>walk(rest, node) || node.$ || null\<close>: every token string is non-empty, so a result is
  falsy exactly when it is \<^verbatim>\<open>null\<close> or \<^verbatim>\<open>undefined\<close>.
\<close>

fun walk :: "string list \<Rightarrow> tree \<Rightarrow> CmToken option" where
  "walk [] tree = None"
| "walk (first # scopeSegments) tree =
     (case child tree first of
        Some node \<Rightarrow>
          (case walk scopeSegments node of
             Some t \<Rightarrow> Some t
           | None \<Rightarrow> dollar node)
      | None \<Rightarrow> None)"

fun split_dot :: "string \<Rightarrow> string list" where
  "split_dot [] = [[]]"
| "split_dot (c # cs) =
     (if c = CHR ''.'' then [] # split_dot cs
      else (case split_dot cs of
              seg # segs \<Rightarrow> (c # seg) # segs
            | [] \<Rightarrow> [[c]]))"

text \<open>
  The cache is an instance of the lru-cache package with \<^verbatim>\<open>max: 2000\<close>; the package is
  not part of the repository. It is modelled as the list of its entries, most recently
  used first: \<^verbatim>\<open>has\<close> looks a key up without touching the order, \<^verbatim>\<open>set\<close> puts the
  entry in front and drops the least recently used entries beyond the capacity, \<^verbatim>\<open>get\<close>
  returns the value (\<open>None\<close> for \<^verbatim>\<open>undefined\<close>) and moves the entry to the front.
\<close>

type_synonym ('k, 'v) lru = "('k \<times> 'v) list"

definition lru_has :: "'k \<Rightarrow> ('k, 'v) lru \<Rightarrow> bool" where
  "lru_has k c = (map_of c k \<noteq> None)"

definition lru_set :: "nat \<Rightarrow> 'k \<Rightarrow> 'v \<Rightarrow> ('k, 'v) lru \<Rightarrow> ('k, 'v) lru" where
  "lru_set mx k v c = take mx ((k, v) # filter (\<lambda>e. fst e \<noteq> k) c)"

definition lru_get :: "'k \<Rightarrow> ('k, 'v) lru \<Rightarrow> 'v option \<times> ('k, 'v) lru" where
  "lru_get k c =
     (case map_of c k of
        None \<Rightarrow> (None, c)
      | Some v \<Rightarrow> (Some v, (k, v) # filter (\<lambda>e. fst e \<noteq> k) c))"

text \<open>
  \<^verbatim>\<open>tmScopeToCmToken(scope)\<close> of tmToCm.ts. The Highlighter hands it \<^verbatim>\<open>scopes[i]\<close>, which
  is \<^verbatim>\<open>undefined\<close> (\<open>None\<close>) outside the array: then \<^verbatim>\<open>cache.has\<close> is false and
  \<^verbatim>\<open>scope.split\<close> is a runtime type failure, before the cache is written.
\<close>

type_synonym cache = "(string, CmToken option) lru"

definition tmScopeToCmToken ::
  "string option \<Rightarrow> cache \<Rightarrow> (error + CmToken option) \<times> cache" where
  "tmScopeToCmToken scope cache =
     (case scope of
        None \<Rightarrow> (Inl RuntimeTypeError, cache)
      | Some s \<Rightarrow>
          (case lru_get s (if \<not> lru_has s cache
                           then lru_set 2000 s (walk (split_dot s) tmToCm) cache
                           else cache) of
             (Some v, cache') \<Rightarrow> (Inr v, cache')
           | (None, cache') \<Rightarrow> (Inr None, cache')))"

text \<open>The cache after a series of calls, starting from a given cache.\<close>

fun calls :: "string list \<Rightarrow> cache \<Rightarrow> cache" where
  "calls [] c = c"
| "calls (s # ss) c = calls ss (snd (tmScopeToCmToken (Some s) c))"

section \<open>The Highlighter instance\<close>

subsection \<open>Scope stack to token class\<close>

text \<open>
  Reading \<^verbatim>\<open>scopes[i]\<close>: \<^verbatim>\<open>undefined\<close> outside the array. Both private methods are
  \<^verbatim>\<open>do ... while\<close> loops over a decreasing index \<open>i\<close>; the loop functions take the value
  of \<open>i\<close> at the start of the body, and \<open>i - 1\<close> is its value when the loop condition is
  tested.
\<close>

definition index :: "'a list \<Rightarrow> int \<Rightarrow> 'a option" where
  "index xs i = (if 0 \<le> i \<and> i < int (length xs) then Some (xs ! nat i) else None)"

function tmScopeToCmToken_loop ::
  "string list \<Rightarrow> int \<Rightarrow> cache \<Rightarrow> (error + CmToken option) \<times> cache" where
  "tmScopeToCmToken_loop scopeStack i cache =
     (case tmScopeToCmToken (index scopeStack i) cache of
        (Inl e, cache') \<Rightarrow> (Inl e, cache')
      | (Inr cmToken, cache') \<Rightarrow>
          if cmToken = None \<and> i - 1 \<ge> 0 then tmScopeToCmToken_loop scopeStack (i - 1) cache'
          else (Inr cmToken, cache'))"
  by pat_completeness auto
termination
  by (relation "measure (\<lambda>(scopeStack, i, cache). nat i)") auto

declare tmScopeToCmToken_loop.simps [simp del]

definition Highlighter_tmScopeToCmToken ::
  "string list \<Rightarrow> cache \<Rightarrow> (error + CmToken option) \<times> cache" where
  "Highlighter_tmScopeToCmToken scopeStack cache =
     tmScopeToCmToken_loop scopeStack (int (length scopeStack) - 1) cache"

text \<open>
  The theme matcher (\<^verbatim>\<open>Theme.match\<close> of monaco-textmate) is not part of the repository:
  it is a parameter that takes the scope (or \<^verbatim>\<open>undefined\<close>) and returns its rules, best
  first, or throws. The method reads \<^verbatim>\<open>[0]\<close> of the result and destructures it, a runtime
  type failure when there is no rule. Color indices are integers, printed in decimal by the
  template literal.
\<close>

record ThemeTrieElementRule =
  foreground :: int
  fontStyle :: int

type_synonym Theme = "string option \<Rightarrow> error + ThemeTrieElementRule list"

definition digit :: "nat \<Rightarrow> char" where
  "digit d = ''0123456789'' ! d"

function decimal :: "nat \<Rightarrow> string" where
  "decimal n = (if n < 10 then [digit n] else decimal (n div 10) @ [digit (n mod 10)])"
  by pat_completeness auto
termination
  by (relation "measure id") auto

declare decimal.simps [simp del]

function tmScopeToTmThemeToken_loop ::
  "Theme \<Rightarrow> string list \<Rightarrow> int \<Rightarrow> error + string option" where
  "tmScopeToTmThemeToken_loop theme scopeStack i =
     (case theme (index scopeStack i) of
        Inl e \<Rightarrow> Inl e
      | Inr [] \<Rightarrow> Inl RuntimeTypeError
      | Inr (rule # rules) \<Rightarrow>
          (let cmToken =
                 (if foreground rule > 0 then
                    Some (if fontStyle rule = 0 then ''tm-'' @ decimal (nat (foreground rule))
                          else if fontStyle rule = 1
                            then (''tm-'' @ decimal (nat (foreground rule))) @ '' em''
                          else if fontStyle rule = 2
                            then (''tm-'' @ decimal (nat (foreground rule))) @ '' strong''
                          else ''tm-'' @ decimal (nat (foreground rule)))
                  else None)
           in if cmToken = None \<and> i - 1 \<ge> 0
              then tmScopeToTmThemeToken_loop theme scopeStack (i - 1)
              else Inr cmToken))"
  by pat_completeness auto
termination
  by (relation "measure (\<lambda>(theme, scopeStack, i). nat i)") auto

declare tmScopeToTmThemeToken_loop.simps [simp del]

definition tmScopeToTmThemeToken :: "Theme \<Rightarrow> string list \<Rightarrow> error + string option" where
  "tmScopeToTmThemeToken theme scopeStack =
     tmScopeToTmThemeToken_loop theme scopeStack (int (length scopeStack) - 1)"

text \<open>
  The class of a theme rule and of the best match of a scope, and the first result of a
  scan, as the specification words them; the methods above are compared with these.
\<close>

definition themeClass :: "ThemeTrieElementRule \<Rightarrow> string option" where
  "themeClass rule =
     (if foreground rule > 0
      then Some (''tm-'' @ decimal (nat (foreground rule)) @
                 (if fontStyle rule = 1 then '' em''
                  else if fontStyle rule = 2 then '' strong'' else []))
      else None)"

definition bestMatchClass :: "Theme \<Rightarrow> string \<Rightarrow> string option" where
  "bestMatchClass theme s =
     (case theme (Some s) of Inr (rule # rules) \<Rightarrow> themeClass rule | _ \<Rightarrow> None)"

fun first_result :: "('a \<Rightarrow> 'b option) \<Rightarrow> 'a list \<Rightarrow> 'b option" where
  "first_result f [] = None"
| "first_result f (x # xs) = (case f x of Some y \<Rightarrow> Some y | None \<Rightarrow> first_result f xs)"

subsection \<open>The tokenizer closure of getTokenizer\<close>

text \<open>
  A token of the grammar engine, the state the editor carries from line to line (its
  \<^verbatim>\<open>tokensCache\<close> is \<^verbatim>\<open>undefined\<close> in a fresh or copied state), a compiled grammar as
  its \<^verbatim>\<open>tokenizeLine\<close> function, and the editor's stream over one line.
\<close>

record IToken =
  startIndex :: nat
  endIndex :: nat
  scopes :: "string list"

record 'rs IHighlighterState =
  ruleStack :: 'rs
  tokensCache :: "IToken list option"

type_synonym 'rs IGrammar = "string \<Rightarrow> 'rs \<Rightarrow> 'rs \<times> IToken list"

record StringStream =
  pos :: nat
  string :: string

text \<open>
  \<^verbatim>\<open>StringStream\<close> belongs to CodeMirror, not to the repository. Its \<^verbatim>\<open>eatWhile(f)\<close>
  consumes one character at a time while there is a character left on the line and
  \<^verbatim>\<open>f\<close> holds; the closure passes \<^verbatim>\<open>() => stream.pos < endIndex\<close>. \<^verbatim>\<open>skipToEnd\<close> sets
  the position to the length of the line.
\<close>

function eatWhile :: "nat \<Rightarrow> StringStream \<Rightarrow> StringStream" where
  "eatWhile limit stream =
     (if pos stream < length (string stream) \<and> pos stream < limit
      then eatWhile limit (stream\<lparr>pos := pos stream + 1\<rparr>)
      else stream)"
  by pat_completeness auto
termination
  by (relation "measure (\<lambda>(limit, stream). length (string stream) - pos stream)") auto

declare eatWhile.simps [simp del]

definition skipToEnd :: "StringStream \<Rightarrow> StringStream" where
  "skipToEnd stream = stream\<lparr>pos := length (string stream)\<rparr>"

text \<open>
  The closure: \<open>tokenizeAtLineStart\<close> is its first statement (the \<^verbatim>\<open>if (pos === 0)\<close>
  block), \<open>tokenizer\<close> the whole body. \<^verbatim>\<open>grammar\<close> is \<^verbatim>\<open>null\<close> when \<^verbatim>\<open>loadLanguage\<close>
  returned \<^verbatim>\<open>null\<close>. The classifier cache is module state, so it is threaded through.
\<close>

definition classify ::
  "Theme option \<Rightarrow> string list \<Rightarrow> cache \<Rightarrow> (error + string option) \<times> cache" where
  "classify theme scopeStack cache =
     (case theme of
        Some th \<Rightarrow> (tmScopeToTmThemeToken th scopeStack, cache)
      | None \<Rightarrow>
          (case Highlighter_tmScopeToCmToken scopeStack cache of
             (Inl e, cache') \<Rightarrow> (Inl e, cache')
           | (Inr cmToken, cache') \<Rightarrow> (Inr (map_option cmTokenValue cmToken), cache')))"

definition tokenizeAtLineStart ::
  "'rs IGrammar option \<Rightarrow> StringStream \<Rightarrow> 'rs IHighlighterState \<Rightarrow>
   error + 'rs IHighlighterState" where
  "tokenizeAtLineStart grammar stream state =
     (if pos stream = 0 then
        (case grammar of
           None \<Rightarrow> Inl RuntimeTypeError
         | Some g \<Rightarrow>
             (case g (string stream) (ruleStack state) of
                (ruleStack', tokens) \<Rightarrow>
                  Inr (state\<lparr>tokensCache := Some tokens, ruleStack := ruleStack'\<rparr>)))
      else Inr state)"

definition tokenizer ::
  "Theme option \<Rightarrow> 'rs IGrammar option \<Rightarrow> StringStream \<Rightarrow> 'rs IHighlighterState \<Rightarrow> cache \<Rightarrow>
   (error + string option) \<times> StringStream \<times> 'rs IHighlighterState \<times> cache" where
  "tokenizer theme grammar stream state cache =
     (case tokenizeAtLineStart grammar stream state of
        Inl e \<Rightarrow> (Inl e, stream, state, cache)
      | Inr state1 \<Rightarrow>
          (case tokensCache state1 of
             None \<Rightarrow> (Inl RuntimeTypeError, stream, state1, cache)
           | Some [] \<Rightarrow> (Inr None, skipToEnd stream, state1, cache)
           | Some (nextToken # rest) \<Rightarrow>
               (case classify theme (scopes nextToken) cache of
                  (r, cache') \<Rightarrow>
                    (r, eatWhile (endIndex nextToken) stream,
                     state1\<lparr>tokensCache := Some rest\<rparr>, cache'))))"

definition getTokenizer ::
  "Theme option \<Rightarrow> ('src, 'rs IGrammar) engine \<Rightarrow> string \<Rightarrow> 'src statics \<Rightarrow>
   (error + (StringStream \<Rightarrow> 'rs IHighlighterState \<Rightarrow> cache \<Rightarrow>
      (error + string option) \<times> StringStream \<times> 'rs IHighlighterState \<times> cache)) \<times> 'src statics" where
  "getTokenizer theme eng languageId st =
     (case await_load eng (loadLanguage languageId st) of
        (Inl e, st') \<Rightarrow> (Inl e, st')
      | (Inr grammar, st') \<Rightarrow> (Inr (tokenizer theme grammar), st'))"

subsection \<open>A theme, a grammar and a cache invariant for the examples and proofs\<close>

definition theme_example :: Theme where
  "theme_example s =
     (case s of
        None \<Rightarrow> Inl RuntimeTypeError
      | Some sc \<Rightarrow>
          Inr [\<lparr>foreground = (if sc = ''string.quoted'' then 5 else if sc = ''keyword.control'' then 12 else 0),
                fontStyle = (if sc = ''string.quoted'' then 1 else 2)\<rparr>])"

definition grammar_example :: "nat IGrammar" where
  "grammar_example line rs =
     (rs + 1,
      [\<lparr>startIndex = 0, endIndex = 2, scopes = [''source.ts'', ''keyword.control'']\<rparr>,
       \<lparr>startIndex = 2, endIndex = length line + 1, scopes = [''source.ts'', ''variable.other'']\<rparr>])"

definition grammar_plain :: "nat IGrammar" where
  "grammar_plain line rs =
     (rs, [\<lparr>startIndex = 0, endIndex = length line + 1, scopes = [''source.ts'']\<rparr>])"

text \<open>Every entry of the cache holds the classification of its key.\<close>

definition cache_ok :: "cache \<Rightarrow> bool" where
  "cache_ok c = list_all (\<lambda>e. snd e = walk (split_dot (fst e)) tmToCm) c"

section \<open>The rebind coordinator (index.ts)\<close>

text \<open>
  Editors are numbered; an editor's \<^verbatim>\<open>mode\<close> and \<^verbatim>\<open>theme\<close> options are what
  \<^verbatim>\<open>cm.getOption\<close> returns. JavaScript runs one task at a time, so the coordinator is a
  state machine whose steps are the stretches of code that run without suspension: a call
  of \<^verbatim>\<open>safeUpdateCM\<close>, the rest of the executor of \<^verbatim>\<open>updateCmTmBindings\<close> once the
  tokenizer it awaits has arrived, and the rest of \<^verbatim>\<open>proceed\<close> once the activation it
  awaits has settled.

  An activation is the cancelable promise \<^verbatim>\<open>currentActivation\<close>: its executor has either
  resolved it (\<open>Settled\<close>) or is suspended at \<^verbatim>\<open>await highlighter.getTokenizer(languageId)\<close>
  (\<open>AwaitingTokenizer\<close>, with the language id and the theme of the highlighter in use).
  The cancelable promise comes from the p-cancelable package, outside the repository: with
  \<^verbatim>\<open>shouldReject = false\<close> its \<^verbatim>\<open>cancel()\<close> only runs the cancel handler (which sets
  \<open>canceled\<close>) while the promise is pending, and the executor still resolves it.

  The promises handed out by \<^verbatim>\<open>safeUpdateCM\<close> are numbered in the order of their
  creation; a resolver is the number of its promise, \<open>settledPromises\<close> maps a resolved
  promise to its value, and resolving a promise twice keeps the first value.
  \<open>suspendedProceed\<close> holds what the suspended call of \<^verbatim>\<open>proceed\<close> captured before its
  \<^verbatim>\<open>await\<close>: \<^verbatim>\<open>nextCM\<close> and \<^verbatim>\<open>resolver\<close> (\<open>None\<close> when the map had none).
  \<open>definedModes\<close> lists the calls of \<^verbatim>\<open>CodeMirror.defineMode\<close>, latest last, and
  \<open>documentHead\<close> the style nodes in \<^verbatim>\<open>document.head\<close>, by theme.
\<close>

record editor =
  modeOption :: string
  themeOption :: string

datatype executor = Settled bool | AwaitingTokenizer string string

record activation =
  progress :: executor
  canceled :: bool

record 'src coordinator =
  queue :: "nat list"
  resolverCallbacks :: "nat \<rightharpoonup> nat"
  currentActivation :: "activation option"
  suspendedProceed :: "(nat \<times> nat option) option"
  settledPromises :: "nat \<rightharpoonup> bool"
  promiseCount :: nat
  cmModeToTheme :: "string \<rightharpoonup> string"
  cmThemeRecord :: "nat \<rightharpoonup> string"
  tmThemeStyleNodes :: "string \<rightharpoonup> nat list \<times> int"
  documentHead :: "string list"
  definedModes :: "(string \<times> string) list"
  editors :: "nat \<Rightarrow> editor"
  themedHighlighters :: "string list"
  highlighterStatics :: "'src statics"

definition resolve :: "nat \<Rightarrow> bool \<Rightarrow> (nat \<rightharpoonup> bool) \<Rightarrow> (nat \<rightharpoonup> bool)" where
  "resolve p b settled = (if settled p = None then settled(p \<mapsto> b) else settled)"

definition cancel :: "activation \<Rightarrow> activation" where
  "cancel a = (case progress a of Settled b \<Rightarrow> a | AwaitingTokenizer l h \<Rightarrow> a\<lparr>canceled := True\<rparr>)"

text \<open>
  \<^verbatim>\<open>updateCmTmBindings(cm)\<close> for an editor (the branch for \<^verbatim>\<open>!cm\<close> is not used by the
  coordinator). Its three bookkeeping blocks come first: recording the theme of the editor
  and of the mode, releasing the style node of the previous theme, and allocating the one
  of the new theme; the function then resolves at once or suspends for the tokenizer.
  \<^verbatim>\<open>cmThemeRecord.get(cm) || 'default'\<close> also replaces the empty string.
\<close>

definition recordBinding :: "nat \<Rightarrow> string \<Rightarrow> string \<Rightarrow> 'src coordinator \<Rightarrow> 'src coordinator" where
  "recordBinding cm languageId themeName w =
     (if hasLanguageRegistered languageId (highlighterStatics w)
      then w\<lparr>cmThemeRecord := (cmThemeRecord w)(cm \<mapsto> themeName),
             cmModeToTheme := (cmModeToTheme w)(languageId \<mapsto> themeName)\<rparr>
      else w\<lparr>cmThemeRecord := (cmThemeRecord w)(cm \<mapsto> themeName)\<rparr>)"

definition cleanupPreviousTheme ::
  "nat \<Rightarrow> string \<Rightarrow> string \<Rightarrow> 'src coordinator \<Rightarrow> 'src coordinator" where
  "cleanupPreviousTheme cm prevThemeName themeName w =
     (if prevThemeName \<noteq> ''default'' \<and> prevThemeName \<noteq> themeName \<and>
         themeName \<in> set (themedHighlighters w)
      then
        (case tmThemeStyleNodes w prevThemeName of
           None \<Rightarrow> w
         | Some (inUseBy, inUseByCount) \<Rightarrow>
             if cm \<in> set inUseBy \<and> inUseByCount = 1
             then w\<lparr>tmThemeStyleNodes := (tmThemeStyleNodes w)(prevThemeName := None),
                    documentHead := remove1 prevThemeName (documentHead w)\<rparr>
             else w\<lparr>tmThemeStyleNodes := (tmThemeStyleNodes w)
                      (prevThemeName \<mapsto> (set_delete cm inUseBy, inUseByCount - 1))\<rparr>)
      else w)"

definition allocateTheme :: "nat \<Rightarrow> string \<Rightarrow> 'src coordinator \<Rightarrow> 'src coordinator" where
  "allocateTheme cm themeName w =
     (if themeName \<noteq> ''default'' \<and> themeName \<in> set (themedHighlighters w)
      then
        (case tmThemeStyleNodes w themeName of
           Some (inUseBy, inUseByCount) \<Rightarrow>
             if cm \<notin> set inUseBy
             then w\<lparr>tmThemeStyleNodes := (tmThemeStyleNodes w)
                      (themeName \<mapsto> (set_add cm inUseBy, inUseByCount + 1))\<rparr>
             else w
         | None \<Rightarrow>
             w\<lparr>tmThemeStyleNodes := (tmThemeStyleNodes w)(themeName \<mapsto> ([cm], 1)),
               documentHead := documentHead w @ [themeName]\<rparr>)
      else w)"

definition updateCmTmBindings ::
  "nat \<Rightarrow> 'src coordinator \<Rightarrow> executor \<times> 'src coordinator" where
  "updateCmTmBindings cm w =
     (let languageId = modeOption (editors w cm);
          themeName = themeOption (editors w cm);
          languageBoundTheme = cmModeToTheme w languageId;
          prevThemeName = (case cmThemeRecord w cm of
                             None \<Rightarrow> ''default''
                           | Some t \<Rightarrow> if t = [] then ''default'' else t);
          highlighter = (if themeName \<in> set (themedHighlighters w) then themeName else ''default'');
          w' = allocateTheme cm themeName
                 (cleanupPreviousTheme cm prevThemeName themeName
                    (recordBinding cm languageId themeName w))
      in if languageBoundTheme = Some themeName then (Settled (prevThemeName \<noteq> themeName), w')
         else if \<not> hasLanguageRegistered languageId (highlighterStatics w) then (Settled False, w')
         else (AwaitingTokenizer languageId highlighter, w'))"

text \<open>
  The rest of the executor, run when the awaited tokenizer arrives: a canceled activation
  resolves to \<^verbatim>\<open>false\<close>, otherwise the mode is defined and it resolves to \<^verbatim>\<open>true\<close>.
\<close>

definition tokenizerReady :: "'src coordinator \<Rightarrow> 'src coordinator" where
  "tokenizerReady w =
     (case currentActivation w of
        None \<Rightarrow> w
      | Some a \<Rightarrow>
          (case progress a of
             Settled b \<Rightarrow> w
           | AwaitingTokenizer languageId highlighter \<Rightarrow>
               if canceled a then w\<lparr>currentActivation := Some (a\<lparr>progress := Settled False\<rparr>)\<rparr>
               else w\<lparr>definedModes := definedModes w @ [(languageId, highlighter)],
                      currentActivation := Some (a\<lparr>progress := Settled True\<rparr>)\<rparr>))"

text \<open>
  \<^verbatim>\<open>proceed\<close> up to its \<^verbatim>\<open>await\<close>, and the rest of it (\<open>resumeProceed\<close>), which runs once
  the activation has settled: calling an \<^verbatim>\<open>undefined\<close> resolver throws, which ends the
  call of \<^verbatim>\<open>proceed\<close> with \<^verbatim>\<open>currentActivation\<close> still set.
\<close>

definition proceed :: "'src coordinator \<Rightarrow> 'src coordinator" where
  "proceed w =
     (case queue w of
        [] \<Rightarrow> w
      | nextCM # rest \<Rightarrow>
          (case updateCmTmBindings nextCM w of
             (p, w') \<Rightarrow>
               w'\<lparr>currentActivation := Some \<lparr>progress = p, canceled = False\<rparr>,
                   suspendedProceed := Some (nextCM, resolverCallbacks w' nextCM)\<rparr>))"

definition resumeProceed :: "'src coordinator \<Rightarrow> 'src coordinator" where
  "resumeProceed w =
     (case (suspendedProceed w, currentActivation w) of
        (Some (nextCM, resolver), Some a) \<Rightarrow>
          (case progress a of
             AwaitingTokenizer languageId highlighter \<Rightarrow> w
           | Settled b \<Rightarrow>
               (case resolver of
                  None \<Rightarrow> w\<lparr>suspendedProceed := None\<rparr>
                | Some p \<Rightarrow>
                    proceed (w\<lparr>settledPromises := resolve p b (settledPromises w),
                                resolverCallbacks := (resolverCallbacks w)(nextCM := None),
                                queue := tl (queue w),
                                currentActivation := None,
                                suspendedProceed := None\<rparr>)))
      | _ \<Rightarrow> w)"

text \<open>
  \<^verbatim>\<open>safeUpdateCM(cm)\<close>; \<open>activeHead\<close> is its test \<^verbatim>\<open>queue[0] === cm && currentActivation\<close>.
  The function returns the promise it created; calling an \<^verbatim>\<open>undefined\<close>
  \<^verbatim>\<open>prevResolver\<close> throws.
\<close>

definition activeHead :: "nat \<Rightarrow> 'src coordinator \<Rightarrow> bool" where
  "activeHead cm w = (queue w \<noteq> [] \<and> hd (queue w) = cm \<and> currentActivation w \<noteq> None)"

definition safeUpdateCM :: "nat \<Rightarrow> 'src coordinator \<Rightarrow> (error + nat) \<times> 'src coordinator" where
  "safeUpdateCM cm w =
     (case (if activeHead cm w then
              (case resolverCallbacks w cm of
                 None \<Rightarrow>
                   Inl (w\<lparr>currentActivation := map_option cancel (currentActivation w),
                           queue := tl (queue w) @ [cm]\<rparr>)
               | Some prevResolver \<Rightarrow>
                   Inr (w\<lparr>currentActivation := map_option cancel (currentActivation w),
                           resolverCallbacks := (resolverCallbacks w)(cm := None),
                           queue := tl (queue w) @ [cm],
                           settledPromises := resolve prevResolver False (settledPromises w)\<rparr>))
            else Inr w) of
        Inl w1 \<Rightarrow> (Inl RuntimeTypeError, w1)
      | Inr w1 \<Rightarrow>
          (let w2 = (if cm \<notin> set (queue w1) then w1\<lparr>queue := queue w1 @ [cm]\<rparr> else w1);
               prom = promiseCount w2;
               w3 = w2\<lparr>resolverCallbacks := (resolverCallbacks w2)(cm \<mapsto> prom),
                       promiseCount := prom + 1\<rparr>
           in (Inr prom, if currentActivation w3 = None then proceed w3 else w3)))"

text \<open>
  The events of a run: a call of \<^verbatim>\<open>safeUpdateCM\<close>, a change of an editor's options, the
  arrival of the awaited tokenizer, and the resumption of \<^verbatim>\<open>proceed\<close>.
\<close>

datatype event = SafeUpdateCM nat | SetOption nat string string | TokenizerReady | ResumeProceed

fun step :: "event \<Rightarrow> 'src coordinator \<Rightarrow> 'src coordinator" where
  "step (SafeUpdateCM cm) w = snd (safeUpdateCM cm w)"
| "step (SetOption cm m t) w =
     w\<lparr>editors := (editors w)(cm := \<lparr>modeOption = m, themeOption = t\<rparr>)\<rparr>"
| "step TokenizerReady w = tokenizerReady w"
| "step ResumeProceed w = resumeProceed w"

fun run :: "event list \<Rightarrow> 'src coordinator \<Rightarrow> 'src coordinator" where
  "run [] w = w"
| "run (e # es) w = run es (step e w)"

text \<open>
  An idle coordinator with the language \<^verbatim>\<open>javascript\<close> registered and two themes, and
  two runs from it: editor 0 asks for a rebind, changes its theme and asks again while the
  first attempt is in flight; \<open>active_example\<close> is the state after the first request.
\<close>

definition coordinator_example :: "unit coordinator" where
  "coordinator_example =
     \<lparr>queue = [], resolverCallbacks = Map.empty, currentActivation = None,
      suspendedProceed = None, settledPromises = Map.empty, promiseCount = 0,
      cmModeToTheme = Map.empty, cmThemeRecord = Map.empty, tmThemeStyleNodes = Map.empty,
      documentHead = [], definedModes = [],
      editors = (\<lambda>cm. \<lparr>modeOption = ''javascript'', themeOption = ''default''\<rparr>),
      themedHighlighters = [''default'', ''monokai''],
      highlighterStatics = js_bound\<rparr>"

definition rebind_trace :: "event list" where
  "rebind_trace =
     [SafeUpdateCM 0, SetOption 0 ''javascript'' ''monokai'', SafeUpdateCM 0,
      TokenizerReady, ResumeProceed]"

definition wedge_trace :: "event list" where
  "wedge_trace =
     [SafeUpdateCM 0, SafeUpdateCM 1, SafeUpdateCM 0, TokenizerReady, ResumeProceed,
      ResumeProceed]"

definition active_example :: "unit coordinator" where
  "active_example = run [SafeUpdateCM 0] coordinator_example"

section \<open>Properties of the grammar registry\<close>

subsection \<open>Sets as lists\<close>




subsection \<open>linkInjections\<close>










subsection \<open>unlinkInjections after linkInjections\<close>

text \<open>
  The early return of \<^verbatim>\<open>unlinkInjections\<close> looks \<open>scopeName\<close> up among the keys of
  \<^verbatim>\<open>scopeNameToInjections\<close>, which are the host scopes: a scope that is injected into
  hosts but hosts no injection itself is never unlinked.
\<close>

lemma unlinkInjections_not_a_host:
  "map_of (scopeNameToInjections st) scopeName = None \<Longrightarrow>
   unlinkInjections scopeName injections st = (Inr None, st)"
  by (simp add: unlinkInjections_def)

text \<open>
  When the scope is itself a host, the guard lets the call through: the scope is removed
  from the listed host, the engine is discarded and the language of the host is reported.
\<close>

lemma unlinkInjections_when_host:
  "unlinkInjections ''source.css'' (JArr [JStr ''text.html''])
     (html_bound\<lparr>scopeNameToInjections := [(''text.html'', [''source.css'']), (''source.css'', [])]\<rparr>)
   = (Inr (Some [''html'']),
      html_bound\<lparr>scopeNameToInjections := [(''text.html'', []), (''source.css'', [])],
                 registry := None\<rparr>)"
  by (simp add: unlinkInjections_def html_bound_def initial_def set_add_def set_delete_def)

text \<open>
  C1. On the empty registry, \<^verbatim>\<open>linkInjections('source.css', ['text.html'])\<close> puts
  \<^verbatim>\<open>source.css\<close> into the injection set of \<^verbatim>\<open>text.html\<close>; the following
  \<^verbatim>\<open>unlinkInjections('source.css', ['text.html'])\<close>, and likewise
  \<^verbatim>\<open>unlinkInjections('source.css')\<close>, returns \<^verbatim>\<open>undefined\<close> and changes nothing:
  \<^verbatim>\<open>source.css\<close> is still injected into \<^verbatim>\<open>text.html\<close>.
\<close>

theorem unlink_after_link_keeps_injection:
  "linkInjections ''source.css'' (JArr [JStr ''text.html'']) (initial :: unit statics)
     = (Inr [], initial\<lparr>scopeNameToInjections := [(''text.html'', [''source.css''])]\<rparr>) \<and>
   unlinkInjections ''source.css'' (JArr [JStr ''text.html''])
       (initial\<lparr>scopeNameToInjections := [(''text.html'', [''source.css''])]\<rparr> :: unit statics)
     = (Inr None, initial\<lparr>scopeNameToInjections := [(''text.html'', [''source.css''])]\<rparr>) \<and>
   unlinkInjections ''source.css'' JUndefined
       (initial\<lparr>scopeNameToInjections := [(''text.html'', [''source.css''])]\<rparr> :: unit statics)
     = (Inr None, initial\<lparr>scopeNameToInjections := [(''text.html'', [''source.css''])]\<rparr>) \<and>
   getInjections ''text.html''
       (initial\<lparr>scopeNameToInjections := [(''text.html'', [''source.css''])]\<rparr> :: unit statics)
     = Some [''source.css'']"
  by (simp add: linkInjections_def unlinkInjections_def initial_def link_body_def set_add_def
      getInjections_def)

subsection \<open>activateLanguage and loadLanguage\<close>

text \<open>
  C5. \<^verbatim>\<open>activateLanguage\<close> checks the scope first: with a scope that has no grammar
  registered it fails with the unknown-scope error, whether or not the language id is
  bound. With a registered scope and a language id that is already bound (to the same
  scope or to another one) it fails with the duplicate-binding error, which carries the
  scope the id is bound to. Either failure leaves every registry map as it was.
\<close>

theorem activateLanguage_failures:
  "(scopeNameToRawGrammars st scopeName = None \<longrightarrow>
      activateLanguage eng scopeName languageId ld st = (Inl (UnknownScope scopeName), st)) \<and>
   (scopeNameToRawGrammars st scopeName \<noteq> None \<and> languageIdToScopeName st languageId = Some bound \<longrightarrow>
      activateLanguage eng scopeName languageId ld st = (Inl (DuplicateBinding languageId bound), st))"
  by (simp add: activateLanguage_def)

theorem activateLanguage_failures_witness:
  "scopeNameToRawGrammars js_bound ''source.ts'' = None \<and>
   activateLanguage engine_ok ''source.ts'' ''typescript'' Now js_bound
     = (Inl (UnknownScope ''source.ts''), js_bound) \<and>
   scopeNameToRawGrammars js_bound ''source.js'' \<noteq> None \<and>
   languageIdToScopeName js_bound ''javascript'' = Some ''source.js'' \<and>
   activateLanguage engine_ok ''source.js'' ''javascript'' Now js_bound
     = (Inl (DuplicateBinding ''javascript'' ''source.js''), js_bound)"
  using activateLanguage_failures [where st = js_bound and scopeName = "''source.ts''"
      and eng = engine_ok and languageId = "''typescript''" and ld = Now]
    activateLanguage_failures [where st = js_bound and scopeName = "''source.js''"
      and eng = engine_ok and languageId = "''javascript''" and ld = Now and bound = "''source.js''"]
  by (simp add: js_bound_def initial_def)

text \<open>
  The language id \<^verbatim>\<open>javascript\<close> is bound, and activating it for the unregistered
  scope \<^verbatim>\<open>source.ts\<close> fails with the unknown-scope error, not with the
  duplicate-binding error.
\<close>

theorem activateLanguage_bound_unknown_scope:
  "languageIdToScopeName js_bound ''javascript'' = Some ''source.js'' \<and>
   fst (activateLanguage engine_ok ''source.ts'' ''javascript'' Defer js_bound)
     = Inl (UnknownScope ''source.ts'') \<and>
   fst (activateLanguage engine_ok ''source.ts'' ''javascript'' Defer js_bound)
     \<noteq> Inl (DuplicateBinding ''javascript'' ''source.js'')"
  by (simp add: activateLanguage_def js_bound_def initial_def)

text \<open>
  C7. \<^verbatim>\<open>loadLanguage\<close> of a language id that is not bound, or whose scope has no
  grammar source, returns \<^verbatim>\<open>null\<close> and leaves the registry untouched (no engine is
  built); the function has no failing path.
\<close>

theorem loadLanguage_unknown:
  "(case languageIdToScopeName st languageId of
      None \<Rightarrow> True
    | Some scopeName \<Rightarrow> scopeNameToRawGrammars st scopeName = None) \<Longrightarrow>
   loadLanguage languageId st = (None, st)"
  by (simp add: loadLanguage_def split: option.splits)

theorem loadLanguage_unknown_witness:
  "languageIdToScopeName js_bound ''python'' = None \<and>
   loadLanguage ''python'' js_bound = (None, js_bound) \<and>
   languageIdToScopeName (js_bound\<lparr>scopeNameToRawGrammars := Map.empty\<rparr>) ''javascript''
     = Some ''source.js'' \<and>
   scopeNameToRawGrammars (js_bound\<lparr>scopeNameToRawGrammars := Map.empty\<rparr>) ''source.js'' = None \<and>
   loadLanguage ''javascript'' (js_bound\<lparr>scopeNameToRawGrammars := Map.empty\<rparr>)
     = (None, js_bound\<lparr>scopeNameToRawGrammars := Map.empty\<rparr>)"
  using loadLanguage_unknown [of js_bound "''python''"]
    loadLanguage_unknown [of "js_bound\<lparr>scopeNameToRawGrammars := Map.empty\<rparr>" "''javascript''"]
  by (simp add: js_bound_def initial_def)

text \<open>
  With priority \<^verbatim>\<open>asap\<close>, a registered scope and a fresh language id, the promise
  of \<^verbatim>\<open>activateLanguage\<close> resolves to \<^verbatim>\<open>true\<close>.
\<close>

theorem activateLanguage_asap_true:
  "scopeNameToRawGrammars js_bound ''source.js'' \<noteq> None \<and>
   languageIdToScopeName js_bound ''js2'' = None \<and>
   fst (activateLanguage engine_ok ''source.js'' ''js2'' Asap js_bound) = Inr True"
  by (simp add: activateLanguage_def js_bound_def initial_def await_load_def loadLanguage_def
      engine_ok_def initRegistry_def)

lemma await_load_total:
  assumes "\<forall>s sc. \<exists>g s'. eng s sc = (Inr g, s')"
  shows "\<exists>g s'. await_load eng r = (Inr g, s')"
proof (cases r)
  case (Pair p s1)
  show ?thesis
  proof (cases p)
    case None
    then show ?thesis using Pair by (simp add: await_load_def)
  next
    case (Some sc)
    obtain g s' where "eng s1 sc = (Inr g, s')" using assms by blast
    then show ?thesis using Pair Some by (simp add: await_load_def)
  qed
qed

lemma activateLanguage_loading:
  assumes "scopeNameToRawGrammars st scopeName \<noteq> None"
    and "languageIdToScopeName st languageId = None"
    and "ld \<noteq> Defer"
  shows "activateLanguage eng scopeName languageId ld st =
     (case await_load eng (loadLanguage languageId
        (st\<lparr>languageIdToScopeName := (languageIdToScopeName st)(languageId \<mapsto> scopeName),
            scopeNameToLanguageId := (scopeNameToLanguageId st)(scopeName \<mapsto> languageId)\<rparr>)) of
        (Inl e, st2) \<Rightarrow> (Inl e, st2)
      | (Inr g, st2) \<Rightarrow> (Inr True, st2))"
  using assms by (cases ld) (auto simp: activateLanguage_def)

text \<open>
  C2. For a registered scope and a fresh language id the call records the two bindings
  and then: with \<^verbatim>\<open>defer\<close> it resolves to \<^verbatim>\<open>false\<close> and nothing else happens; with
  \<^verbatim>\<open>now\<close> and with \<^verbatim>\<open>asap\<close> it awaits \<^verbatim>\<open>loadLanguage(languageId)\<close>, that is, it builds
  the engine if there is none and awaits the engine's load of the scope, rejecting with
  the engine's error when the load rejects and resolving to \<^verbatim>\<open>true\<close> otherwise, in the
  state the load leaves. When the scope name is the empty string, \<^verbatim>\<open>loadLanguage\<close>
  returns \<^verbatim>\<open>null\<close>: nothing is loaded and the call resolves to \<^verbatim>\<open>true\<close>. With \<^verbatim>\<open>now\<close>
  and \<^verbatim>\<open>asap\<close> the call never resolves to \<^verbatim>\<open>false\<close>.
\<close>

theorem activateLanguage_result:
  assumes "scopeNameToRawGrammars st scopeName \<noteq> None"
    and "languageIdToScopeName st languageId = None"
  shows "(ld = Defer \<longrightarrow>
            activateLanguage eng scopeName languageId ld st =
              (Inr False,
               st\<lparr>languageIdToScopeName := (languageIdToScopeName st)(languageId \<mapsto> scopeName),
                  scopeNameToLanguageId := (scopeNameToLanguageId st)(scopeName \<mapsto> languageId)\<rparr>)) \<and>
         (ld \<noteq> Defer \<and> scopeName \<noteq> [] \<longrightarrow>
            activateLanguage eng scopeName languageId ld st =
              (case eng (st\<lparr>languageIdToScopeName := (languageIdToScopeName st)(languageId \<mapsto> scopeName),
                            scopeNameToLanguageId := (scopeNameToLanguageId st)(scopeName \<mapsto> languageId),
                            registry := Some Registry\<rparr>) scopeName of
                 (Inl e, st2) \<Rightarrow> (Inl e, st2)
               | (Inr g, st2) \<Rightarrow> (Inr True, st2))) \<and>
         (ld \<noteq> Defer \<and> scopeName = [] \<longrightarrow>
            activateLanguage eng scopeName languageId ld st =
              (Inr True,
               st\<lparr>languageIdToScopeName := (languageIdToScopeName st)(languageId \<mapsto> scopeName),
                  scopeNameToLanguageId := (scopeNameToLanguageId st)(scopeName \<mapsto> languageId)\<rparr>)) \<and>
         (ld \<noteq> Defer \<longrightarrow>
            fst (activateLanguage eng scopeName languageId ld st) \<noteq> Inr False \<and>
            ((\<forall>s sc. \<exists>g s'. eng s sc = (Inr g, s')) \<longrightarrow>
               fst (activateLanguage eng scopeName languageId ld st) = Inr True))"
proof (intro conjI impI)
  assume "ld = Defer"
  then show "activateLanguage eng scopeName languageId ld st =
              (Inr False,
               st\<lparr>languageIdToScopeName := (languageIdToScopeName st)(languageId \<mapsto> scopeName),
                  scopeNameToLanguageId := (scopeNameToLanguageId st)(scopeName \<mapsto> languageId)\<rparr>)"
    using assms by (simp add: activateLanguage_def)
next
  assume a: "ld \<noteq> Defer \<and> scopeName \<noteq> []"
  have r: "(if registry st = None
            then initRegistry (st\<lparr>languageIdToScopeName := (languageIdToScopeName st)(languageId \<mapsto> scopeName),
                  scopeNameToLanguageId := (scopeNameToLanguageId st)(scopeName \<mapsto> languageId)\<rparr>)
            else st\<lparr>languageIdToScopeName := (languageIdToScopeName st)(languageId \<mapsto> scopeName),
                  scopeNameToLanguageId := (scopeNameToLanguageId st)(scopeName \<mapsto> languageId)\<rparr>)
          = st\<lparr>languageIdToScopeName := (languageIdToScopeName st)(languageId \<mapsto> scopeName),
                  scopeNameToLanguageId := (scopeNameToLanguageId st)(scopeName \<mapsto> languageId),
                  registry := Some Registry\<rparr>"
  proof (cases "registry st")
    case None
    then show ?thesis by (simp add: initRegistry_def)
  next
    case (Some x)
    then have "registry st = Some Registry" by (cases x) simp
    then show ?thesis by simp
  qed
  have l: "loadLanguage languageId
      (st\<lparr>languageIdToScopeName := (languageIdToScopeName st)(languageId \<mapsto> scopeName),
          scopeNameToLanguageId := (scopeNameToLanguageId st)(scopeName \<mapsto> languageId)\<rparr>)
      = (Some scopeName,
         st\<lparr>languageIdToScopeName := (languageIdToScopeName st)(languageId \<mapsto> scopeName),
            scopeNameToLanguageId := (scopeNameToLanguageId st)(scopeName \<mapsto> languageId),
            registry := Some Registry\<rparr>)"
    using a assms(1) r by (auto simp: loadLanguage_def)
  show "activateLanguage eng scopeName languageId ld st =
              (case eng (st\<lparr>languageIdToScopeName := (languageIdToScopeName st)(languageId \<mapsto> scopeName),
                            scopeNameToLanguageId := (scopeNameToLanguageId st)(scopeName \<mapsto> languageId),
                            registry := Some Registry\<rparr>) scopeName of
                 (Inl e, st2) \<Rightarrow> (Inl e, st2)
               | (Inr g, st2) \<Rightarrow> (Inr True, st2))"
    using a assms
    by (simp add: activateLanguage_loading l await_load_def split: prod.splits sum.splits)
next
  assume a: "ld \<noteq> Defer \<and> scopeName = []"
  show "activateLanguage eng scopeName languageId ld st =
              (Inr True,
               st\<lparr>languageIdToScopeName := (languageIdToScopeName st)(languageId \<mapsto> scopeName),
                  scopeNameToLanguageId := (scopeNameToLanguageId st)(scopeName \<mapsto> languageId)\<rparr>)"
    using a assms by (simp add: activateLanguage_loading loadLanguage_def await_load_def)
next
  assume "ld \<noteq> Defer"
  then show "fst (activateLanguage eng scopeName languageId ld st) \<noteq> Inr False"
    using assms by (simp add: activateLanguage_loading split: prod.splits sum.splits)
next
  assume l: "ld \<noteq> Defer" and e: "\<forall>s sc. \<exists>g s'. eng s sc = (Inr g, s')"
  obtain g s' where "await_load eng (loadLanguage languageId
        (st\<lparr>languageIdToScopeName := (languageIdToScopeName st)(languageId \<mapsto> scopeName),
            scopeNameToLanguageId := (scopeNameToLanguageId st)(scopeName \<mapsto> languageId)\<rparr>))
      = (Inr g, s')"
    using await_load_total [OF e] by blast
  then show "fst (activateLanguage eng scopeName languageId ld st) = Inr True"
    using assms l by (simp add: activateLanguage_loading)
qed

theorem activateLanguage_result_witness:
  "scopeNameToRawGrammars js_bound ''source.js'' \<noteq> None \<and>
   languageIdToScopeName js_bound ''js2'' = None \<and>
   activateLanguage engine_ok ''source.js'' ''js2'' Defer js_bound =
     (Inr False,
      js_bound\<lparr>languageIdToScopeName := (languageIdToScopeName js_bound)(''js2'' \<mapsto> ''source.js''),
               scopeNameToLanguageId := (scopeNameToLanguageId js_bound)(''source.js'' \<mapsto> ''js2'')\<rparr>) \<and>
   activateLanguage engine_ok ''source.js'' ''js2'' Now js_bound =
     (Inr True,
      js_bound\<lparr>languageIdToScopeName := (languageIdToScopeName js_bound)(''js2'' \<mapsto> ''source.js''),
               scopeNameToLanguageId := (scopeNameToLanguageId js_bound)(''source.js'' \<mapsto> ''js2''),
               registry := Some Registry\<rparr>) \<and>
   activateLanguage engine_ok ''source.js'' ''js2'' Asap js_bound =
     (Inr True,
      js_bound\<lparr>languageIdToScopeName := (languageIdToScopeName js_bound)(''js2'' \<mapsto> ''source.js''),
               scopeNameToLanguageId := (scopeNameToLanguageId js_bound)(''source.js'' \<mapsto> ''js2''),
               registry := Some Registry\<rparr>) \<and>
   activateLanguage engine_fail ''source.js'' ''js2'' Now js_bound =
     (Inl EngineError,
      js_bound\<lparr>languageIdToScopeName := (languageIdToScopeName js_bound)(''js2'' \<mapsto> ''source.js''),
               scopeNameToLanguageId := (scopeNameToLanguageId js_bound)(''source.js'' \<mapsto> ''js2''),
               registry := Some Registry\<rparr>) \<and>
   activateLanguage engine_fail ''source.js'' ''js2'' Defer js_bound =
     (Inr False,
      js_bound\<lparr>languageIdToScopeName := (languageIdToScopeName js_bound)(''js2'' \<mapsto> ''source.js''),
               scopeNameToLanguageId := (scopeNameToLanguageId js_bound)(''source.js'' \<mapsto> ''js2'')\<rparr>) \<and>
   scopeNameToRawGrammars empty_scope [] \<noteq> None \<and>
   languageIdToScopeName empty_scope ''plain'' = None \<and>
   activateLanguage engine_fail [] ''plain'' Now empty_scope =
     (Inr True,
      empty_scope\<lparr>languageIdToScopeName := (languageIdToScopeName empty_scope)(''plain'' \<mapsto> []),
                  scopeNameToLanguageId := (scopeNameToLanguageId empty_scope)([] \<mapsto> ''plain'')\<rparr>)"
proof -
  have a: "scopeNameToRawGrammars js_bound ''source.js'' \<noteq> None"
    and b: "languageIdToScopeName js_bound ''js2'' = None"
    by (simp_all add: js_bound_def initial_def)
  have c: "scopeNameToRawGrammars empty_scope [] \<noteq> None"
    and d: "languageIdToScopeName empty_scope ''plain'' = None"
    by (simp_all add: empty_scope_def addGrammar_def initial_def)
  have ne: "''source.js'' \<noteq> []" by simp
  note t1 = activateLanguage_result [OF a b, where ld = Defer and eng = engine_ok]
  note t2 = activateLanguage_result [OF a b, where ld = Now and eng = engine_ok]
  note t3 = activateLanguage_result [OF a b, where ld = Asap and eng = engine_ok]
  note t4 = activateLanguage_result [OF a b, where ld = Now and eng = engine_fail]
  note t5 = activateLanguage_result [OF a b, where ld = Defer and eng = engine_fail]
  note t6 = activateLanguage_result [OF c d, where ld = Now and eng = engine_fail]
  have 1: "activateLanguage engine_ok ''source.js'' ''js2'' Defer js_bound =
     (Inr False,
      js_bound\<lparr>languageIdToScopeName := (languageIdToScopeName js_bound)(''js2'' \<mapsto> ''source.js''),
               scopeNameToLanguageId := (scopeNameToLanguageId js_bound)(''source.js'' \<mapsto> ''js2'')\<rparr>)"
    using t1 by blast
  have 2: "activateLanguage engine_ok ''source.js'' ''js2'' Now js_bound =
     (Inr True,
      js_bound\<lparr>languageIdToScopeName := (languageIdToScopeName js_bound)(''js2'' \<mapsto> ''source.js''),
               scopeNameToLanguageId := (scopeNameToLanguageId js_bound)(''source.js'' \<mapsto> ''js2''),
               registry := Some Registry\<rparr>)"
    using t2 ne by (simp add: engine_ok_def)
  have 3: "activateLanguage engine_ok ''source.js'' ''js2'' Asap js_bound =
     (Inr True,
      js_bound\<lparr>languageIdToScopeName := (languageIdToScopeName js_bound)(''js2'' \<mapsto> ''source.js''),
               scopeNameToLanguageId := (scopeNameToLanguageId js_bound)(''source.js'' \<mapsto> ''js2''),
               registry := Some Registry\<rparr>)"
    using t3 ne by (simp add: engine_ok_def)
  have 4: "activateLanguage engine_fail ''source.js'' ''js2'' Now js_bound =
     (Inl EngineError,
      js_bound\<lparr>languageIdToScopeName := (languageIdToScopeName js_bound)(''js2'' \<mapsto> ''source.js''),
               scopeNameToLanguageId := (scopeNameToLanguageId js_bound)(''source.js'' \<mapsto> ''js2''),
               registry := Some Registry\<rparr>)"
    using t4 ne by (simp add: engine_fail_def)
  have 5: "activateLanguage engine_fail ''source.js'' ''js2'' Defer js_bound =
     (Inr False,
      js_bound\<lparr>languageIdToScopeName := (languageIdToScopeName js_bound)(''js2'' \<mapsto> ''source.js''),
               scopeNameToLanguageId := (scopeNameToLanguageId js_bound)(''source.js'' \<mapsto> ''js2'')\<rparr>)"
    using t5 by blast
  have 6: "activateLanguage engine_fail [] ''plain'' Now empty_scope =
     (Inr True,
      empty_scope\<lparr>languageIdToScopeName := (languageIdToScopeName empty_scope)(''plain'' \<mapsto> []),
                  scopeNameToLanguageId := (scopeNameToLanguageId empty_scope)([] \<mapsto> ''plain'')\<rparr>)"
    using t6 by simp
  show ?thesis using a b c d 1 2 3 4 5 6 by blast
qed

section \<open>Properties of the scope classifier\<close>

lemma cache_ok_lookup: "cache_ok c \<Longrightarrow> map_of c s = Some v \<Longrightarrow> v = walk (split_dot s) tmToCm"
proof -
  assume ok: "cache_ok c" and m: "map_of c s = Some v"
  from m have "(s, v) \<in> set c" by (rule map_of_SomeD)
  with ok have "snd (s, v) = walk (split_dot (fst (s, v))) tmToCm"
    unfolding cache_ok_def list_all_iff by blast
  then show ?thesis by simp
qed

lemma cache_ok_filter: "cache_ok c \<Longrightarrow> cache_ok (filter P c)"
  by (simp add: cache_ok_def list_all_iff)

lemma cache_ok_take: "cache_ok c \<Longrightarrow> cache_ok (take n c)"
  by (auto simp: cache_ok_def list_all_iff dest: in_set_takeD)

lemma cache_ok_Cons: "cache_ok ((s, v) # c) = (v = walk (split_dot s) tmToCm \<and> cache_ok c)"
  by (simp add: cache_ok_def)

lemma lru_set_front: "0 < mx \<Longrightarrow> lru_set mx k v c = (k, v) # take (mx - 1) (filter (\<lambda>e. fst e \<noteq> k) c)"
  by (cases mx) (simp_all add: lru_set_def)

lemma lru_set_length: "length (lru_set mx k v c) \<le> mx"
  by (simp add: lru_set_def)

lemma lru_get_length: "length (snd (lru_get k c)) \<le> length c"
proof (cases "map_of c k")
  case None
  then show ?thesis by (simp add: lru_get_def)
next
  case (Some v)
  then have "(k, v) \<in> set c" by (rule map_of_SomeD)
  then have "length (filter (\<lambda>e. fst e \<noteq> k) c) < length c"
    by (intro length_filter_less [of "(k, v)"]) simp_all
  then show ?thesis using Some by (simp add: lru_get_def)
qed

lemma tmScopeToCmToken_value:
  assumes "cache_ok c"
  shows "fst (tmScopeToCmToken (Some s) c) = Inr (walk (split_dot s) tmToCm) \<and>
         cache_ok (snd (tmScopeToCmToken (Some s) c))"
proof (cases "map_of c s")
  case None
  then show ?thesis using assms
    by (simp add: tmScopeToCmToken_def lru_has_def lru_get_def lru_set_front cache_ok_Cons
        cache_ok_take cache_ok_filter)
next
  case (Some v)
  then have "v = walk (split_dot s) tmToCm" using assms by (simp add: cache_ok_lookup)
  then show ?thesis using assms Some
    by (simp add: tmScopeToCmToken_def lru_has_def lru_get_def cache_ok_Cons cache_ok_filter)
qed

lemma tmScopeToCmToken_length:
  assumes "length c \<le> 2000"
  shows "length (snd (tmScopeToCmToken (Some s) c)) \<le> 2000"
proof -
  have "length (snd (lru_get s (if \<not> lru_has s c then lru_set 2000 s (walk (split_dot s) tmToCm) c else c))) \<le> 2000"
    using assms lru_get_length [of s "lru_set 2000 s (walk (split_dot s) tmToCm) c"]
      lru_get_length [of s c] lru_set_length [of 2000 s "walk (split_dot s) tmToCm" c]
    by (auto simp del: One_nat_def)
  moreover have "snd (tmScopeToCmToken (Some s) c) =
      snd (lru_get s (if \<not> lru_has s c then lru_set 2000 s (walk (split_dot s) tmToCm) c else c))"
    by (cases "lru_get s (if \<not> lru_has s c then lru_set 2000 s (walk (split_dot s) tmToCm) c else c)")
      (simp add: tmScopeToCmToken_def split: option.splits)
  ultimately show ?thesis by simp
qed

lemma calls_ok: "cache_ok c \<Longrightarrow> length c \<le> 2000 \<Longrightarrow>
  cache_ok (calls ss c) \<and> length (calls ss c) \<le> 2000"
proof (induction ss arbitrary: c)
  case Nil
  then show ?case by simp
next
  case (Cons s ss)
  then show ?case
    using tmScopeToCmToken_value [of c s] tmScopeToCmToken_length [of c s] by simp
qed

lemma cache_ok_empty: "cache_ok []"
  by (simp add: cache_ok_def)

text \<open>
  C9. Whatever calls came before (the cache starts empty and is only written by
  \<^verbatim>\<open>tmScopeToCmToken\<close>), the classification of a scope string is the one a cold cache
  gives, namely the value \<^verbatim>\<open>walk\<close> computes; calling again at once gives the same result;
  and the cache never holds more than 2000 entries.
\<close>

theorem tmScopeToCmToken_deterministic:
  "fst (tmScopeToCmToken (Some scope) (calls history [])) = fst (tmScopeToCmToken (Some scope) []) \<and>
   fst (tmScopeToCmToken (Some scope) (calls history [])) = Inr (walk (split_dot scope) tmToCm) \<and>
   fst (tmScopeToCmToken (Some scope) (snd (tmScopeToCmToken (Some scope) (calls history []))))
     = fst (tmScopeToCmToken (Some scope) (calls history [])) \<and>
   length (calls history []) \<le> 2000"
proof -
  have a: "cache_ok (calls history []) \<and> length (calls history []) \<le> 2000"
    using calls_ok [of "[]" history] by (simp add: cache_ok_empty)
  have b: "fst (tmScopeToCmToken (Some scope) (calls history [])) = Inr (walk (split_dot scope) tmToCm)"
    using a tmScopeToCmToken_value by blast
  have c: "cache_ok (snd (tmScopeToCmToken (Some scope) (calls history [])))"
    using a tmScopeToCmToken_value by blast
  have d: "fst (tmScopeToCmToken (Some scope) (snd (tmScopeToCmToken (Some scope) (calls history []))))
     = Inr (walk (split_dot scope) tmToCm)"
    using c tmScopeToCmToken_value by blast
  have e: "fst (tmScopeToCmToken (Some scope) []) = Inr (walk (split_dot scope) tmToCm)"
    using tmScopeToCmToken_value [of "[]" scope] by (simp add: cache_ok_empty)
  show ?thesis using a b d e by simp
qed

section \<open>Properties of the Highlighter instance\<close>

subsection \<open>Scanning the scope stack\<close>

lemma index_in: "n < length xs \<Longrightarrow> index xs (int n) = Some (xs ! n)"
  by (simp add: index_def)

lemma rev_take_Suc: "n < length xs \<Longrightarrow> rev (take (Suc n) xs) = xs ! n # rev (take n xs)"
  by (simp add: take_Suc_conv_app_nth)

lemma tmScopeToCmToken_Some_Inr:
  "\<exists>v c'. tmScopeToCmToken (Some s) c = (Inr v, c')"
  by (simp add: tmScopeToCmToken_def split: prod.splits option.splits)

lemma cm_loop_scan:
  "cache_ok c \<Longrightarrow> n < length ss \<Longrightarrow>
   fst (tmScopeToCmToken_loop ss (int n) c)
     = Inr (first_result (\<lambda>s. walk (split_dot s) tmToCm) (rev (take (Suc n) ss))) \<and>
   cache_ok (snd (tmScopeToCmToken_loop ss (int n) c))"
proof (induction n arbitrary: c)
  case 0
  obtain v c' where r: "tmScopeToCmToken (Some (ss ! 0)) c = (Inr v, c')"
    using tmScopeToCmToken_Some_Inr by blast
  have v: "v = walk (split_dot (ss ! 0)) tmToCm" and ok: "cache_ok c'"
    using tmScopeToCmToken_value [OF "0.prems"(1), of "ss ! 0"] r by simp_all
  have i: "index ss 0 = Some (ss ! 0)" using "0.prems"(2) index_in [of 0 ss] by simp
  have t: "rev (take (Suc 0) ss) = [ss ! 0]" using "0.prems"(2) rev_take_Suc [of 0 ss] by simp
  show ?case
    by (subst tmScopeToCmToken_loop.simps, subst (2) tmScopeToCmToken_loop.simps)
      (simp add: i r v [symmetric] ok t split: option.splits)
next
  case (Suc n)
  obtain v c' where r: "tmScopeToCmToken (Some (ss ! Suc n)) c = (Inr v, c')"
    using tmScopeToCmToken_Some_Inr by blast
  have v: "v = walk (split_dot (ss ! Suc n)) tmToCm" and ok: "cache_ok c'"
    using tmScopeToCmToken_value [OF Suc.prems(1), of "ss ! Suc n"] r by simp_all
  have i: "index ss (int (Suc n)) = Some (ss ! Suc n)" using Suc.prems(2) by (rule index_in)
  have t: "rev (take (Suc (Suc n)) ss) = ss ! Suc n # rev (take (Suc n) ss)"
    using Suc.prems(2) by (rule rev_take_Suc)
  have n: "n < length ss" using Suc.prems(2) by simp
  have d: "int (Suc n) - 1 = int n" by simp
  have unfold: "tmScopeToCmToken_loop ss (int (Suc n)) c =
      (if v = None then tmScopeToCmToken_loop ss (int n) c' else (Inr v, c'))"
    by (subst tmScopeToCmToken_loop.simps) (simp only: i r d, simp)
  show ?case
  proof (cases v)
    case None
    then show ?thesis using Suc.IH [OF ok n] unfold v t by simp
  next
    case (Some tok)
    then show ?thesis using unfold v ok t by simp
  qed
qed

lemma Highlighter_tmScopeToCmToken_scan:
  assumes "cache_ok c" and "ss \<noteq> []"
  shows "fst (Highlighter_tmScopeToCmToken ss c)
           = Inr (first_result (\<lambda>s. walk (split_dot s) tmToCm) (rev ss))"
proof -
  obtain n where n: "length ss = Suc n" using assms(2) by (cases ss) simp_all
  then have "int (length ss) - 1 = int n" by simp
  then show ?thesis
    using cm_loop_scan [OF assms(1), of n ss] n
    by (simp add: Highlighter_tmScopeToCmToken_def)
qed

lemma theme_step:
  assumes "theme (Some s) = Inr (rule # rules)"
  shows "(if foreground rule > 0 then
            Some (if fontStyle rule = 0 then ''tm-'' @ decimal (nat (foreground rule))
                  else if fontStyle rule = 1
                    then (''tm-'' @ decimal (nat (foreground rule))) @ '' em''
                  else if fontStyle rule = 2
                    then (''tm-'' @ decimal (nat (foreground rule))) @ '' strong''
                  else ''tm-'' @ decimal (nat (foreground rule)))
          else None) = bestMatchClass theme s"
  using assms by (simp add: bestMatchClass_def themeClass_def)

lemma theme_loop_scan:
  "(\<forall>s \<in> set ss. \<exists>rule rules. theme (Some s) = Inr (rule # rules)) \<Longrightarrow> n < length ss \<Longrightarrow>
   tmScopeToTmThemeToken_loop theme ss (int n)
     = Inr (first_result (bestMatchClass theme) (rev (take (Suc n) ss)))"
proof (induction n)
  case 0
  obtain rule rules where r: "theme (Some (ss ! 0)) = Inr (rule # rules)"
    using "0.prems" by (metis nth_mem)
  have i: "index ss 0 = Some (ss ! 0)" using "0.prems"(2) index_in [of 0 ss] by simp
  have t: "rev (take (Suc 0) ss) = [ss ! 0]" using "0.prems"(2) rev_take_Suc [of 0 ss] by simp
  note st = theme_step [where theme = theme and s = "ss ! 0" and rule = rule and rules = rules, OF r]
  have "tmScopeToTmThemeToken_loop theme ss 0 = Inr (bestMatchClass theme (ss ! 0))"
    by (subst tmScopeToTmThemeToken_loop.simps)
      (simp only: i r sum.case list.case Let_def st, simp)
  then show ?case by (simp add: t split: option.splits)
next
  case (Suc n)
  obtain rule rules where r: "theme (Some (ss ! Suc n)) = Inr (rule # rules)"
    using Suc.prems by (metis nth_mem)
  have i: "index ss (int (Suc n)) = Some (ss ! Suc n)" using Suc.prems(2) by (rule index_in)
  have t: "rev (take (Suc (Suc n)) ss) = ss ! Suc n # rev (take (Suc n) ss)"
    using Suc.prems(2) by (rule rev_take_Suc)
  have n: "n < length ss" using Suc.prems(2) by simp
  have d: "int (Suc n) - 1 = int n" by simp
  note st = theme_step [where theme = theme and s = "ss ! Suc n" and rule = rule and rules = rules, OF r]
  have unfold: "tmScopeToTmThemeToken_loop theme ss (int (Suc n)) =
      (if bestMatchClass theme (ss ! Suc n) = None then tmScopeToTmThemeToken_loop theme ss (int n)
       else Inr (bestMatchClass theme (ss ! Suc n)))"
    by (subst tmScopeToTmThemeToken_loop.simps)
      (simp only: i r sum.case list.case Let_def st d, simp)
  show ?case
  proof (cases "bestMatchClass theme (ss ! Suc n)")
    case None
    then show ?thesis using Suc.IH [OF Suc.prems(1) n] unfold t by simp
  next
    case (Some cls)
    then show ?thesis using unfold t by simp
  qed
qed

lemma tmScopeToTmThemeToken_scan:
  assumes "\<forall>s \<in> set ss. \<exists>rule rules. theme (Some s) = Inr (rule # rules)" and "ss \<noteq> []"
  shows "tmScopeToTmThemeToken theme ss = Inr (first_result (bestMatchClass theme) (rev ss))"
proof -
  obtain n where n: "length ss = Suc n" using assms(2) by (cases ss) simp_all
  then have "int (length ss) - 1 = int n" by simp
  then show ?thesis
    using theme_loop_scan [OF assms(1), of n] n
    by (simp add: tmScopeToTmThemeToken_def)
qed

lemma theme_rule_class:
  "(if foreground rule > 0 then
      Some (if fontStyle rule = 0 then ''tm-'' @ decimal (nat (foreground rule))
            else if fontStyle rule = 1
              then (''tm-'' @ decimal (nat (foreground rule))) @ '' em''
            else if fontStyle rule = 2
              then (''tm-'' @ decimal (nat (foreground rule))) @ '' strong''
            else ''tm-'' @ decimal (nat (foreground rule)))
    else None) = themeClass rule"
  by (simp add: themeClass_def)

lemma cm_loop_total:
  "n < length ss \<Longrightarrow> \<exists>r c'. tmScopeToCmToken_loop ss (int n) c = (Inr r, c')"
proof (induction n arbitrary: c)
  case 0
  obtain v c' where r: "tmScopeToCmToken (Some (ss ! 0)) c = (Inr v, c')"
    using tmScopeToCmToken_Some_Inr by blast
  have i: "index ss 0 = Some (ss ! 0)" using "0.prems" index_in [of 0 ss] by simp
  show ?case
    by (subst tmScopeToCmToken_loop.simps) (simp add: i r)
next
  case (Suc n)
  obtain v c' where r: "tmScopeToCmToken (Some (ss ! Suc n)) c = (Inr v, c')"
    using tmScopeToCmToken_Some_Inr by blast
  have i: "index ss (int (Suc n)) = Some (ss ! Suc n)" using Suc.prems by (rule index_in)
  have n: "n < length ss" using Suc.prems by simp
  have d: "int (Suc n) - 1 = int n" by simp
  have unfold: "tmScopeToCmToken_loop ss (int (Suc n)) c =
      (if v = None then tmScopeToCmToken_loop ss (int n) c' else (Inr v, c'))"
    by (subst tmScopeToCmToken_loop.simps) (simp only: i r d, simp)
  show ?case using Suc.IH [OF n, of c'] unfold by (cases v) simp_all
qed

lemma theme_loop_agree:
  "\<forall>s \<in> set ss. theme (Some s) = theme' (Some s) \<Longrightarrow> n < length ss \<Longrightarrow>
   tmScopeToTmThemeToken_loop theme ss (int n) = tmScopeToTmThemeToken_loop theme' ss (int n)"
proof (induction n)
  case 0
  have i: "index ss (int 0) = Some (ss ! 0)" using "0.prems"(2) by (rule index_in)
  have a: "theme (Some (ss ! 0)) = theme' (Some (ss ! 0))" using "0.prems" by simp
  have d: "\<not> (0 \<le> int 0 - 1)" by simp
  show ?case
    by (subst tmScopeToTmThemeToken_loop.simps, subst (2) tmScopeToTmThemeToken_loop.simps)
      (simp only: i a d simp_thms if_False)
next
  case (Suc n)
  have i: "index ss (int (Suc n)) = Some (ss ! Suc n)" using Suc.prems(2) by (rule index_in)
  have a: "theme (Some (ss ! Suc n)) = theme' (Some (ss ! Suc n))" using Suc.prems by simp
  have n: "n < length ss" using Suc.prems(2) by simp
  have d: "int (Suc n) - 1 = int n" by simp
  show ?case
    by (subst tmScopeToTmThemeToken_loop.simps, subst (2) tmScopeToTmThemeToken_loop.simps)
      (simp only: i a d Suc.IH [OF Suc.prems(1) n])
qed

lemma cm_loop_empty: "Highlighter_tmScopeToCmToken [] cache = (Inl RuntimeTypeError, cache)"
  by (simp add: Highlighter_tmScopeToCmToken_def tmScopeToCmToken_loop.simps [of "[]" "- 1"]
      index_def tmScopeToCmToken_def)

lemma theme_loop_empty:
  "tmScopeToTmThemeToken theme [] =
     (case theme None of
        Inl e \<Rightarrow> Inl e
      | Inr [] \<Rightarrow> Inl RuntimeTypeError
      | Inr (rule # rules) \<Rightarrow> Inr (themeClass rule))"
  by (simp add: tmScopeToTmThemeToken_def tmScopeToTmThemeToken_loop.simps [of theme "[]" "- 1"]
      index_def theme_rule_class Let_def split: sum.splits list.splits)

text \<open>
  C10. With a non-empty scope stack the theme-less method never fails, and the themed
  method depends on the matcher only at the scopes of the stack: no read leaves the
  array. With an empty stack the first read is at index \<open>-1\<close>, which is \<^verbatim>\<open>undefined\<close>:
  the loop body still runs once, the theme-less method fails with a runtime type failure,
  and the themed method hands \<^verbatim>\<open>undefined\<close> to the matcher and fails when the matcher
  throws or has no rule for it.
\<close>

theorem scope_stack_bounds:
  "(scopeStack \<noteq> [] \<longrightarrow>
      (\<exists>r. fst (Highlighter_tmScopeToCmToken scopeStack cache) = Inr r) \<and>
      ((\<forall>s \<in> set scopeStack. theme (Some s) = theme' (Some s)) \<longrightarrow>
         tmScopeToTmThemeToken theme scopeStack = tmScopeToTmThemeToken theme' scopeStack)) \<and>
   index ([] :: string list) (int (length ([] :: string list)) - 1) = None \<and>
   Highlighter_tmScopeToCmToken [] cache = (Inl RuntimeTypeError, cache) \<and>
   tmScopeToTmThemeToken theme [] =
     (case theme None of
        Inl e \<Rightarrow> Inl e
      | Inr [] \<Rightarrow> Inl RuntimeTypeError
      | Inr (rule # rules) \<Rightarrow> Inr (themeClass rule))"
proof (intro conjI impI)
  assume ne: "scopeStack \<noteq> []"
  then obtain n where n: "length scopeStack = Suc n" by (cases scopeStack) simp_all
  then have d: "int (length scopeStack) - 1 = int n" by simp
  show "\<exists>r. fst (Highlighter_tmScopeToCmToken scopeStack cache) = Inr r"
    using cm_loop_total [of n scopeStack cache] n d
    by (auto simp: Highlighter_tmScopeToCmToken_def)
  assume "\<forall>s \<in> set scopeStack. theme (Some s) = theme' (Some s)"
  then show "tmScopeToTmThemeToken theme scopeStack = tmScopeToTmThemeToken theme' scopeStack"
    using theme_loop_agree [of scopeStack theme theme' n] n d
    by (simp add: tmScopeToTmThemeToken_def)
next
  show "index ([] :: string list) (int (length ([] :: string list)) - 1) = None"
    by (simp add: index_def)
next
  show "Highlighter_tmScopeToCmToken [] cache = (Inl RuntimeTypeError, cache)"
    by (rule cm_loop_empty)
next
  show "tmScopeToTmThemeToken theme [] =
     (case theme None of
        Inl e \<Rightarrow> Inl e
      | Inr [] \<Rightarrow> Inl RuntimeTypeError
      | Inr (rule # rules) \<Rightarrow> Inr (themeClass rule))"
    by (rule theme_loop_empty)
qed

theorem scope_stack_bounds_witness:
  "[''source.ts'', ''string.quoted''] \<noteq> [] \<and>
   (\<exists>r. fst (Highlighter_tmScopeToCmToken [''source.ts'', ''string.quoted''] []) = Inr r) \<and>
   tmScopeToTmThemeToken theme_example [''source.ts'', ''string.quoted'']
     = tmScopeToTmThemeToken (\<lambda>s. if s = None then Inr [] else theme_example s)
         [''source.ts'', ''string.quoted''] \<and>
   Highlighter_tmScopeToCmToken [] [] = (Inl RuntimeTypeError, []) \<and>
   tmScopeToTmThemeToken theme_example [] = Inl RuntimeTypeError"
  using scope_stack_bounds [of "[''source.ts'', ''string.quoted'']" "[]" theme_example
      "\<lambda>s. if s = None then Inr [] else theme_example s"]
    scope_stack_bounds [of "[]" "[]" theme_example theme_example]
  by (simp add: theme_example_def)

text \<open>
  C8. For a non-empty scope stack (innermost scope last) the theme-less method returns
  the first classification that is not \<^verbatim>\<open>null\<close>, scanning from the innermost scope to the
  outermost, and \<^verbatim>\<open>null\<close> when there is none. The themed method, when the matcher has a
  rule for every scope of the stack, returns the class of the first scope in the same order
  whose best rule has a positive color index: \<^verbatim>\<open>tm-<index>\<close>, followed by \<^verbatim>\<open> em\<close> for
  style flag 1 and \<^verbatim>\<open> strong\<close> for style flag 2; \<^verbatim>\<open>null\<close> when there is none.
\<close>

theorem scope_stack_resolution:
  assumes "scopeStack \<noteq> []"
  shows "fst (Highlighter_tmScopeToCmToken scopeStack (calls history []))
           = Inr (first_result (\<lambda>s. walk (split_dot s) tmToCm) (rev scopeStack)) \<and>
         ((\<forall>s \<in> set scopeStack. \<exists>rule rules. theme (Some s) = Inr (rule # rules)) \<longrightarrow>
            tmScopeToTmThemeToken theme scopeStack
              = Inr (first_result (bestMatchClass theme) (rev scopeStack)))"
proof -
  have "cache_ok (calls history [])"
    using calls_ok [of "[]" history] by (simp add: cache_ok_empty)
  then show ?thesis
    using assms Highlighter_tmScopeToCmToken_scan tmScopeToTmThemeToken_scan by blast
qed

theorem scope_stack_resolution_witness:
  "[''source.ts'', ''meta.class.ts'', ''string.quoted'', ''zzz''] \<noteq> [] \<and>
   fst (Highlighter_tmScopeToCmToken [''source.ts'', ''meta.class.ts'', ''string.quoted'', ''zzz'']
         (calls [''comment''] [])) = Inr (Some String) \<and>
   tmScopeToTmThemeToken theme_example [''source.ts'', ''meta.class.ts'', ''string.quoted'', ''zzz'']
     = Inr (Some ''tm-5 em'') \<and>
   tmScopeToTmThemeToken theme_example [''source.ts'', ''keyword.control'']
     = Inr (Some ''tm-12 strong'') \<and>
   tmScopeToTmThemeToken theme_example [''source.ts''] = Inr None"
proof -
  have a: "\<forall>s \<in> set [''source.ts'', ''meta.class.ts'', ''string.quoted'', ''zzz''].
             \<exists>rule rules. theme_example (Some s) = Inr (rule # rules)"
    by (simp add: theme_example_def)
  have b: "\<forall>s \<in> set [''source.ts'', ''keyword.control''].
             \<exists>rule rules. theme_example (Some s) = Inr (rule # rules)"
    by (simp add: theme_example_def)
  have c: "\<forall>s \<in> set [''source.ts''].
             \<exists>rule rules. theme_example (Some s) = Inr (rule # rules)"
    by (simp add: theme_example_def)
  show ?thesis
    using scope_stack_resolution [of "[''source.ts'', ''meta.class.ts'', ''string.quoted'', ''zzz'']"
        "[''comment'']" theme_example]
      scope_stack_resolution [of "[''source.ts'', ''keyword.control'']" "[]" theme_example]
      scope_stack_resolution [of "[''source.ts'']" "[]" theme_example]
      a b c
    by (simp add: tmToCm_def bestMatchClass_def themeClass_def theme_example_def digit_def
        decimal.simps [of 5] decimal.simps [of 12] decimal.simps [of "Suc 0"])
qed

subsection \<open>The tokenizer closure\<close>

lemma eatWhile_pos:
  "eatWhile limit stream =
     stream\<lparr>pos := max (pos stream) (min limit (length (string stream)))\<rparr>"
proof (induction limit stream rule: eatWhile.induct)
  case (1 limit stream)
  show ?case
  proof (cases "pos stream < length (string stream) \<and> pos stream < limit")
    case True
    then have m: "max (pos stream + 1) (min limit (length (string stream)))
        = max (pos stream) (min limit (length (string stream)))" by auto
    have "eatWhile limit stream = eatWhile limit (stream\<lparr>pos := pos stream + 1\<rparr>)"
      using True by (subst eatWhile.simps) simp
    also have "\<dots> = stream\<lparr>pos := max (pos stream) (min limit (length (string stream)))\<rparr>"
      using "1.IH" [OF True] m by simp
    finally show ?thesis .
  next
    case False
    then have "max (pos stream) (min limit (length (string stream))) = pos stream" by auto
    moreover have "eatWhile limit stream = stream"
      using False by (subst eatWhile.simps) auto
    ultimately show ?thesis by simp
  qed
qed


text \<open>
  C4. Invoked at stream position 0 with a compiled grammar, the closure tokenizes the
  whole line with the carried rule stack, stores the new rule stack, and consumes the
  first token in the same invocation: the cache is left holding the remaining tokens. At
  any other position it consumes the first cached token. Consuming a token moves the
  stream to the token's end offset, but not beyond the end of the line and never
  backwards, and returns the classification of the token's scopes. With no token left
  the stream is moved to the end of the line and the result is \<^verbatim>\<open>null\<close>.
\<close>

theorem tokenizer_protocol:
  "(pos stream = 0 \<and> g (string stream) (ruleStack state) = (ruleStack', t # ts) \<longrightarrow>
      tokenizer theme (Some g) stream state cache =
        (fst (classify theme (scopes t) cache),
         stream\<lparr>pos := min (endIndex t) (length (string stream))\<rparr>,
         state\<lparr>tokensCache := Some ts, ruleStack := ruleStack'\<rparr>,
         snd (classify theme (scopes t) cache))) \<and>
   (pos stream = 0 \<and> g (string stream) (ruleStack state) = (ruleStack', []) \<longrightarrow>
      tokenizer theme (Some g) stream state cache =
        (Inr None, stream\<lparr>pos := length (string stream)\<rparr>,
         state\<lparr>tokensCache := Some [], ruleStack := ruleStack'\<rparr>, cache)) \<and>
   (pos stream \<noteq> 0 \<and> tokensCache state = Some (t # ts) \<longrightarrow>
      tokenizer theme grammar stream state cache =
        (fst (classify theme (scopes t) cache),
         stream\<lparr>pos := max (pos stream) (min (endIndex t) (length (string stream)))\<rparr>,
         state\<lparr>tokensCache := Some ts\<rparr>,
         snd (classify theme (scopes t) cache))) \<and>
   (pos stream \<noteq> 0 \<and> tokensCache state = Some [] \<longrightarrow>
      tokenizer theme grammar stream state cache =
        (Inr None, stream\<lparr>pos := length (string stream)\<rparr>, state, cache))"
  by (simp add: tokenizer_def tokenizeAtLineStart_def eatWhile_pos skipToEnd_def
      split: prod.splits)

lemma classify_keyword:
  "classify None [''source.ts'', ''keyword.control''] []
     = (Inr (Some ''keyword''), [(''keyword.control'', Some Keyword)])"
  by code_simp

lemma classify_variable:
  "classify None [''source.ts'', ''variable.other''] [(''keyword.control'', Some Keyword)]
     = (Inr (Some ''def''), [(''variable.other'', Some Def), (''keyword.control'', Some Keyword)])"
  by code_simp

theorem tokenizer_protocol_witness:
  "pos \<lparr>pos = 0, string = ''if x''\<rparr> = 0 \<and>
   tokenizer None (Some grammar_example) \<lparr>pos = 0, string = ''if x''\<rparr>
       \<lparr>ruleStack = 0, tokensCache = None\<rparr> []
     = (Inr (Some ''keyword''), \<lparr>pos = 2, string = ''if x''\<rparr>,
        \<lparr>ruleStack = 1, tokensCache = Some [\<lparr>startIndex = 2, endIndex = 5,
            scopes = [''source.ts'', ''variable.other'']\<rparr>]\<rparr>,
        [(''keyword.control'', Some Keyword)]) \<and>
   tokenizer None (Some grammar_example) \<lparr>pos = 2, string = ''if x''\<rparr>
       \<lparr>ruleStack = 1, tokensCache = Some [\<lparr>startIndex = 2, endIndex = 5,
            scopes = [''source.ts'', ''variable.other'']\<rparr>]\<rparr>
       [(''keyword.control'', Some Keyword)]
     = (Inr (Some ''def''), \<lparr>pos = 4, string = ''if x''\<rparr>,
        \<lparr>ruleStack = 1, tokensCache = Some []\<rparr>,
        [(''variable.other'', Some Def), (''keyword.control'', Some Keyword)]) \<and>
   tokenizer None (Some grammar_example) \<lparr>pos = 4, string = ''if x''\<rparr>
       \<lparr>ruleStack = 1, tokensCache = Some []\<rparr>
       [(''variable.other'', Some Def), (''keyword.control'', Some Keyword)]
     = (Inr None, \<lparr>pos = 4, string = ''if x''\<rparr>,
        \<lparr>ruleStack = 1, tokensCache = Some []\<rparr>,
        [(''variable.other'', Some Def), (''keyword.control'', Some Keyword)])"
  using tokenizer_protocol [where stream = "\<lparr>pos = 0, string = ''if x''\<rparr>"
      and g = grammar_example and state = "\<lparr>ruleStack = 0, tokensCache = None\<rparr>"
      and ruleStack' = 1
      and t = "\<lparr>startIndex = 0, endIndex = 2, scopes = [''source.ts'', ''keyword.control'']\<rparr>"
      and ts = "[\<lparr>startIndex = 2, endIndex = 5, scopes = [''source.ts'', ''variable.other'']\<rparr>]"
      and theme = None and cache = "[]" and grammar = "Some grammar_example"]
    tokenizer_protocol [where stream = "\<lparr>pos = 2, string = ''if x''\<rparr>"
      and g = grammar_example
      and state = "\<lparr>ruleStack = 1, tokensCache = Some [\<lparr>startIndex = 2, endIndex = 5,
            scopes = [''source.ts'', ''variable.other'']\<rparr>]\<rparr>"
      and ruleStack' = 1
      and t = "\<lparr>startIndex = 2, endIndex = 5, scopes = [''source.ts'', ''variable.other'']\<rparr>"
      and ts = "[]"
      and theme = None and cache = "[(''keyword.control'', Some Keyword)]"
      and grammar = "Some grammar_example"]
    tokenizer_protocol [where stream = "\<lparr>pos = 4, string = ''if x''\<rparr>"
      and g = grammar_example
      and state = "\<lparr>ruleStack = 1, tokensCache = Some []\<rparr>"
      and ruleStack' = 1
      and t = "\<lparr>startIndex = 2, endIndex = 5, scopes = [''source.ts'', ''variable.other'']\<rparr>"
      and ts = "[]"
      and theme = None and cache = "[(''variable.other'', Some Def), (''keyword.control'', Some Keyword)]"
      and grammar = "Some grammar_example"]
  by (simp add: grammar_example_def classify_keyword classify_variable)

text \<open>
  A grammar that matches nothing returns one token for the whole line, the appended
  newline included: on the line \<^verbatim>\<open>abc\<close> its end offset is 4. Invoked at position 0 the
  closure consumes this token and leaves the stream at position 3, the end of the line.
  Likewise a cached token with end offset 4, consumed at position 1, leaves the stream
  at position 3.
\<close>

theorem tokenizer_stops_at_line_end:
  "snd (grammar_plain ''abc'' 0) = [\<lparr>startIndex = 0, endIndex = 4, scopes = [''source.ts'']\<rparr>] \<and>
   pos (fst (snd (tokenizer None (Some grammar_plain) \<lparr>pos = 0, string = ''abc''\<rparr>
         \<lparr>ruleStack = 0, tokensCache = None\<rparr> []))) = 3 \<and>
   pos (fst (snd (tokenizer None (None :: nat IGrammar option)
         \<lparr>pos = 1, string = ''abc''\<rparr>
         \<lparr>ruleStack = 0, tokensCache = Some [\<lparr>startIndex = 1, endIndex = 4, scopes = [''source.ts'']\<rparr>]\<rparr>
         []))) = 3"
  by (simp add: tokenizer_def tokenizeAtLineStart_def eatWhile_pos grammar_plain_def
      split: prod.splits)

section \<open>Properties of the rebind coordinator\<close>

lemma recordBinding_fields:
  "queue (recordBinding cm l t w) = queue w"
  "resolverCallbacks (recordBinding cm l t w) = resolverCallbacks w"
  "settledPromises (recordBinding cm l t w) = settledPromises w"
  "promiseCount (recordBinding cm l t w) = promiseCount w"
  by (simp_all add: recordBinding_def)

lemma cleanupPreviousTheme_fields:
  "queue (cleanupPreviousTheme cm p t w) = queue w"
  "resolverCallbacks (cleanupPreviousTheme cm p t w) = resolverCallbacks w"
  "settledPromises (cleanupPreviousTheme cm p t w) = settledPromises w"
  "promiseCount (cleanupPreviousTheme cm p t w) = promiseCount w"
  by (simp_all add: cleanupPreviousTheme_def split: option.splits prod.splits)

lemma allocateTheme_fields:
  "queue (allocateTheme cm t w) = queue w"
  "resolverCallbacks (allocateTheme cm t w) = resolverCallbacks w"
  "settledPromises (allocateTheme cm t w) = settledPromises w"
  "promiseCount (allocateTheme cm t w) = promiseCount w"
  by (simp_all add: allocateTheme_def split: option.splits prod.splits)

lemma updateCmTmBindings_state:
  "snd (updateCmTmBindings cm w) =
     allocateTheme cm (themeOption (editors w cm))
       (cleanupPreviousTheme cm
          (case cmThemeRecord w cm of None \<Rightarrow> ''default''
           | Some t \<Rightarrow> if t = [] then ''default'' else t)
          (themeOption (editors w cm))
          (recordBinding cm (modeOption (editors w cm)) (themeOption (editors w cm)) w))"
  by (simp add: updateCmTmBindings_def Let_def)

lemma updateCmTmBindings_fields:
  assumes "updateCmTmBindings cm w = (p, w')"
  shows "queue w' = queue w" and "resolverCallbacks w' = resolverCallbacks w"
    and "settledPromises w' = settledPromises w" and "promiseCount w' = promiseCount w"
proof -
  have "w' = snd (updateCmTmBindings cm w)" using assms by simp
  then have w': "w' = allocateTheme cm (themeOption (editors w cm))
       (cleanupPreviousTheme cm
          (case cmThemeRecord w cm of None \<Rightarrow> ''default''
           | Some t \<Rightarrow> if t = [] then ''default'' else t)
          (themeOption (editors w cm))
          (recordBinding cm (modeOption (editors w cm)) (themeOption (editors w cm)) w))"
    by (simp only: updateCmTmBindings_state)
  show "queue w' = queue w" and "resolverCallbacks w' = resolverCallbacks w"
    and "settledPromises w' = settledPromises w" and "promiseCount w' = promiseCount w"
    by (simp_all only: w' allocateTheme_fields cleanupPreviousTheme_fields recordBinding_fields)
qed

lemma proceed_fields:
  "queue (proceed w) = queue w"
  "resolverCallbacks (proceed w) = resolverCallbacks w"
  "settledPromises (proceed w) = settledPromises w"
  "promiseCount (proceed w) = promiseCount w"
  by (auto simp: proceed_def split: list.splits prod.splits dest: updateCmTmBindings_fields)

lemma safeUpdateCM_queue:
  assumes "distinct (queue w)"
  shows "distinct (queue (snd (safeUpdateCM cm w))) \<and>
         set (queue (snd (safeUpdateCM cm w))) = insert cm (set (queue w))"
proof (cases "activeHead cm w")
  case True
  then obtain rest where q: "queue w = cm # rest" by (cases "queue w") (auto simp: activeHead_def)
  then have d: "cm \<notin> set rest" "distinct rest" using assms by simp_all
  show ?thesis
  proof (cases "resolverCallbacks w cm")
    case None
    then show ?thesis using True q d by (simp add: safeUpdateCM_def)
  next
    case (Some prevResolver)
    then show ?thesis using True q d
      by (auto simp: safeUpdateCM_def Let_def proceed_fields)
  qed
next
  case False
  then have "safeUpdateCM cm w =
    (let w2 = (if cm \<notin> set (queue w) then w\<lparr>queue := queue w @ [cm]\<rparr> else w);
         prom = promiseCount w2;
         w3 = w2\<lparr>resolverCallbacks := (resolverCallbacks w2)(cm \<mapsto> prom),
                 promiseCount := prom + 1\<rparr>
     in (Inr prom, if currentActivation w3 = None then proceed w3 else w3))"
    by (simp add: safeUpdateCM_def)
  then show ?thesis using assms
    by (auto simp: Let_def proceed_fields)
qed

lemma safeUpdateCM_promise:
  assumes "fst (safeUpdateCM cm w) = Inr p"
  shows "p = promiseCount w \<and>
         promiseCount (snd (safeUpdateCM cm w)) = Suc (promiseCount w) \<and>
         resolverCallbacks (snd (safeUpdateCM cm w)) cm = Some p"
proof (cases "activeHead cm w")
  case True
  show ?thesis
  proof (cases "resolverCallbacks w cm")
    case None
    then show ?thesis using True assms by (simp add: safeUpdateCM_def)
  next
    case (Some prevResolver)
    then show ?thesis using True assms
      by (auto simp: safeUpdateCM_def Let_def proceed_fields)
  qed
next
  case False
  then have "safeUpdateCM cm w =
    (let w2 = (if cm \<notin> set (queue w) then w\<lparr>queue := queue w @ [cm]\<rparr> else w);
         prom = promiseCount w2;
         w3 = w2\<lparr>resolverCallbacks := (resolverCallbacks w2)(cm \<mapsto> prom),
                 promiseCount := prom + 1\<rparr>
     in (Inr prom, if currentActivation w3 = None then proceed w3 else w3))"
    by (simp add: safeUpdateCM_def)
  then show ?thesis using assms
    by (auto simp: Let_def proceed_fields)
qed

lemma safeUpdateCM_supersede:
  assumes "queue w \<noteq> []" and "hd (queue w) = cm" and "currentActivation w = Some a"
    and "resolverCallbacks w cm = Some p" and "settledPromises w p = None"
  shows "settledPromises (snd (safeUpdateCM cm w)) p = Some False \<and>
         currentActivation (snd (safeUpdateCM cm w)) = Some (cancel a) \<and>
         fst (safeUpdateCM cm w) = Inr (promiseCount w)"
proof -
  have h: "activeHead cm w" using assms by (simp add: activeHead_def)
  have m: "cm \<in> set (tl (queue w) @ [cm])" by simp
  show ?thesis using assms(3,4,5) h m
    by (simp add: safeUpdateCM_def Let_def resolve_def)
qed

lemma proceed_activation:
  "queue w \<noteq> [] \<Longrightarrow> \<exists>a. currentActivation (proceed w) = Some a"
  by (cases "queue w") (simp_all add: proceed_def split: prod.splits)

lemma safeUpdateCM_idle:
  assumes "queue w = []" and "currentActivation w = None"
  shows "fst (safeUpdateCM cm w) = Inr (promiseCount w) \<and>
         queue (snd (safeUpdateCM cm w)) = [cm] \<and>
         (\<exists>a. currentActivation (snd (safeUpdateCM cm w)) = Some a) \<and>
         resolverCallbacks (snd (safeUpdateCM cm w)) cm = Some (promiseCount w) \<and>
         settledPromises (snd (safeUpdateCM cm w)) = settledPromises w \<and>
         promiseCount (snd (safeUpdateCM cm w)) = Suc (promiseCount w)"
proof -
  have h: "\<not> activeHead cm w" using assms by (simp add: activeHead_def)
  have r: "safeUpdateCM cm w =
      (Inr (promiseCount w),
       proceed (w\<lparr>queue := [cm],
                  resolverCallbacks := (resolverCallbacks w)(cm \<mapsto> promiseCount w),
                  promiseCount := promiseCount w + 1\<rparr>))"
    using assms h by (simp add: safeUpdateCM_def Let_def)
  have q: "queue (w\<lparr>queue := [cm],
                  resolverCallbacks := (resolverCallbacks w)(cm \<mapsto> promiseCount w),
                  promiseCount := promiseCount w + 1\<rparr>) \<noteq> []" by simp
  show ?thesis using proceed_activation [OF q] by (simp add: r proceed_fields)
qed

lemma safeUpdateCM_twice:
  assumes "queue w = []" and "currentActivation w = None"
    and "settledPromises w (promiseCount w) = None"
  shows "fst (safeUpdateCM cm w) = Inr (promiseCount w) \<and>
         fst (safeUpdateCM cm (snd (safeUpdateCM cm w))) = Inr (Suc (promiseCount w)) \<and>
         settledPromises (snd (safeUpdateCM cm (snd (safeUpdateCM cm w)))) (promiseCount w)
           = Some False \<and>
         queue (snd (safeUpdateCM cm (snd (safeUpdateCM cm w)))) = [cm]"
proof -
  note i = safeUpdateCM_idle [OF assms(1,2), of cm]
  obtain a where a: "currentActivation (snd (safeUpdateCM cm w)) = Some a" using i by blast
  have ne: "queue (snd (safeUpdateCM cm w)) \<noteq> []" and h: "hd (queue (snd (safeUpdateCM cm w))) = cm"
    using i by simp_all
  have s: "settledPromises (snd (safeUpdateCM cm w)) (promiseCount w) = None"
    using i assms(3) by simp
  have r: "resolverCallbacks (snd (safeUpdateCM cm w)) cm = Some (promiseCount w)"
    using i by simp
  note sup = safeUpdateCM_supersede [OF ne h a r s]
  have d: "distinct (queue (snd (safeUpdateCM cm w)))" using i by simp
  have q: "distinct (queue (snd (safeUpdateCM cm (snd (safeUpdateCM cm w))))) \<and>
      set (queue (snd (safeUpdateCM cm (snd (safeUpdateCM cm w))))) = {cm}"
    using safeUpdateCM_queue [OF d, of cm] i by simp
  have "queue (snd (safeUpdateCM cm (snd (safeUpdateCM cm w)))) = [cm]"
  proof (cases "queue (snd (safeUpdateCM cm (snd (safeUpdateCM cm w))))")
    case Nil
    then show ?thesis using q by simp
  next
    case (Cons x xs)
    then have "x = cm" using q by auto
    moreover have "xs = []"
    proof (cases xs)
      case Nil
      then show ?thesis .
    next
      case (Cons y ys)
      then have "y \<in> {cm}" and "y \<noteq> x"
        using q \<open>queue (snd (safeUpdateCM cm (snd (safeUpdateCM cm w)))) = x # xs\<close> by auto
      then show ?thesis using \<open>x = cm\<close> by simp
    qed
    ultimately show ?thesis using Cons by simp
  qed
  then show ?thesis using i sup by simp
qed

text \<open>
  The call throws exactly when the editor is at the head of the queue with an attempt in
  flight and no resolver registered for it; otherwise it returns the promise it created.
\<close>

lemma safeUpdateCM_throws:
  "(fst (safeUpdateCM cm w) = Inl RuntimeTypeError) =
     (activeHead cm w \<and> resolverCallbacks w cm = None)"
  by (cases "activeHead cm w"; cases "resolverCallbacks w cm")
    (simp_all add: safeUpdateCM_def Let_def)

lemma safeUpdateCM_returns:
  "\<not> (activeHead cm w \<and> resolverCallbacks w cm = None) \<Longrightarrow>
   fst (safeUpdateCM cm w) = Inr (promiseCount w)"
  by (cases "activeHead cm w"; cases "resolverCallbacks w cm")
    (simp_all add: safeUpdateCM_def Let_def)

text \<open>
  What a call of \<^verbatim>\<open>safeUpdateCM(cm)\<close> does on a queue without duplicates: it leaves the
  queue without duplicates and with \<open>cm\<close> in it, so no second entry is added for an
  editor that is already queued. When the call returns, it returns a promise created by
  this call, whose resolver replaces the one registered for the editor. When the editor is
  at the head of the queue with an attempt in flight and a resolver registered, that
  attempt is canceled and the promise of the earlier request resolves to \<^verbatim>\<open>false\<close> at
  once. In particular, two calls in a row for the same editor on an idle coordinator
  return two different promises, the first of which is resolved to \<^verbatim>\<open>false\<close> by the
  second call, and leave the editor queued once.
\<close>

lemma safeUpdateCM_enqueue:
  assumes "distinct (queue w)"
  shows "distinct (queue (snd (safeUpdateCM cm w))) \<and>
         set (queue (snd (safeUpdateCM cm w))) = insert cm (set (queue w)) \<and>
         (\<forall>p. fst (safeUpdateCM cm w) = Inr p \<longrightarrow>
            p = promiseCount w \<and>
            promiseCount (snd (safeUpdateCM cm w)) = Suc (promiseCount w) \<and>
            resolverCallbacks (snd (safeUpdateCM cm w)) cm = Some p) \<and>
         (\<forall>a p. queue w \<noteq> [] \<and> hd (queue w) = cm \<and> currentActivation w = Some a \<and>
            resolverCallbacks w cm = Some p \<and> settledPromises w p = None \<longrightarrow>
            settledPromises (snd (safeUpdateCM cm w)) p = Some False \<and>
            currentActivation (snd (safeUpdateCM cm w)) = Some (cancel a) \<and>
            fst (safeUpdateCM cm w) = Inr (promiseCount w)) \<and>
         (queue w = [] \<and> currentActivation w = None \<and>
            settledPromises w (promiseCount w) = None \<longrightarrow>
            fst (safeUpdateCM cm w) = Inr (promiseCount w) \<and>
            fst (safeUpdateCM cm (snd (safeUpdateCM cm w))) = Inr (Suc (promiseCount w)) \<and>
            settledPromises (snd (safeUpdateCM cm (snd (safeUpdateCM cm w)))) (promiseCount w)
              = Some False \<and>
            queue (snd (safeUpdateCM cm (snd (safeUpdateCM cm w)))) = [cm])"
  using safeUpdateCM_queue [OF assms, of cm] safeUpdateCM_promise [of cm w]
    safeUpdateCM_supersede [of w cm] safeUpdateCM_twice [of w cm]
  by blast

lemmas coordinator_defs = safeUpdateCM_def activeHead_def proceed_def updateCmTmBindings_def
  recordBinding_def cleanupPreviousTheme_def allocateTheme_def hasLanguageRegistered_def
  js_bound_def initial_def coordinator_example_def Let_def resolve_def cancel_def
  tokenizerReady_def resumeProceed_def


lemma safeUpdateCM_enqueue_example:
  "distinct (queue active_example) \<and>
   queue active_example = [0] \<and>
   currentActivation active_example
     = Some \<lparr>progress = AwaitingTokenizer ''javascript'' ''default'', canceled = False\<rparr> \<and>
   resolverCallbacks active_example 0 = Some 0 \<and>
   settledPromises active_example 0 = None \<and>
   distinct (queue (snd (safeUpdateCM 0 active_example))) \<and>
   set (queue (snd (safeUpdateCM 0 active_example))) = {0} \<and>
   fst (safeUpdateCM 0 active_example) = Inr 1 \<and>
   resolverCallbacks (snd (safeUpdateCM 0 active_example)) 0 = Some 1 \<and>
   settledPromises (snd (safeUpdateCM 0 active_example)) 0 = Some False \<and>
   currentActivation (snd (safeUpdateCM 0 active_example))
     = Some \<lparr>progress = AwaitingTokenizer ''javascript'' ''default'', canceled = True\<rparr> \<and>
   queue coordinator_example = [] \<and>
   currentActivation coordinator_example = None \<and>
   settledPromises coordinator_example (promiseCount coordinator_example) = None \<and>
   fst (safeUpdateCM 0 coordinator_example) = Inr 0 \<and>
   fst (safeUpdateCM 0 (snd (safeUpdateCM 0 coordinator_example))) = Inr 1 \<and>
   settledPromises (snd (safeUpdateCM 0 (snd (safeUpdateCM 0 coordinator_example)))) 0
     = Some False \<and>
   queue (snd (safeUpdateCM 0 (snd (safeUpdateCM 0 coordinator_example)))) = [0]"
proof -
  have q: "queue active_example = [0]"
    by (simp add: active_example_def coordinator_defs)
  have a: "currentActivation active_example
     = Some \<lparr>progress = AwaitingTokenizer ''javascript'' ''default'', canceled = False\<rparr>"
    by (simp add: active_example_def coordinator_defs)
  have r: "resolverCallbacks active_example 0 = Some 0"
    by (simp add: active_example_def coordinator_defs)
  have s: "settledPromises active_example 0 = None"
    by (simp add: active_example_def coordinator_defs)
  have c: "promiseCount active_example = 1"
    by (simp add: active_example_def coordinator_defs)
  have d: "distinct (queue active_example)" by (simp add: q)
  have ne: "queue active_example \<noteq> []" and h: "hd (queue active_example) = 0"
    by (simp_all add: q)
  note th = safeUpdateCM_enqueue [OF d, of 0]
  have 1: "distinct (queue (snd (safeUpdateCM 0 active_example))) \<and>
      set (queue (snd (safeUpdateCM 0 active_example))) = insert 0 (set (queue active_example))"
    using th by blast
  have 2: "settledPromises (snd (safeUpdateCM 0 active_example)) 0 = Some False \<and>
      currentActivation (snd (safeUpdateCM 0 active_example))
        = Some (cancel \<lparr>progress = AwaitingTokenizer ''javascript'' ''default'', canceled = False\<rparr>) \<and>
      fst (safeUpdateCM 0 active_example) = Inr (promiseCount active_example)"
    using th ne h a r s by blast
  have 3: "resolverCallbacks (snd (safeUpdateCM 0 active_example)) 0
      = Some (promiseCount active_example)"
    using th 2 by blast
  have q0: "queue coordinator_example = []" and a0: "currentActivation coordinator_example = None"
    and c0: "promiseCount coordinator_example = 0"
    and s0: "settledPromises coordinator_example (promiseCount coordinator_example) = None"
    by (simp_all add: coordinator_example_def)
  have d0: "distinct (queue coordinator_example)" by (simp add: q0)
  note th0 = safeUpdateCM_enqueue [OF d0, of 0]
  have 4: "fst (safeUpdateCM 0 coordinator_example) = Inr (promiseCount coordinator_example) \<and>
      fst (safeUpdateCM 0 (snd (safeUpdateCM 0 coordinator_example)))
        = Inr (Suc (promiseCount coordinator_example)) \<and>
      settledPromises (snd (safeUpdateCM 0 (snd (safeUpdateCM 0 coordinator_example))))
        (promiseCount coordinator_example) = Some False \<and>
      queue (snd (safeUpdateCM 0 (snd (safeUpdateCM 0 coordinator_example)))) = [0]"
    using th0 q0 a0 s0 by blast
  show ?thesis
    using 1 2 3 4 q a r s c d q0 a0 s0 c0 by (simp add: cancel_def)
qed

text \<open>The queue of every run that starts with a duplicate-free queue has no duplicates.\<close>

lemma step_distinct: "distinct (queue w) \<Longrightarrow> distinct (queue (step e w))"
proof (cases e)
  case (SafeUpdateCM cm)
  assume "distinct (queue w)"
  then show ?thesis using safeUpdateCM_queue [of w cm] by (simp add: SafeUpdateCM)
next
  case (SetOption cm m t)
  assume "distinct (queue w)"
  then show ?thesis by (simp add: SetOption)
next
  case TokenizerReady
  assume "distinct (queue w)"
  then show ?thesis
    by (simp add: TokenizerReady tokenizerReady_def split: option.splits executor.splits)
next
  case ResumeProceed
  assume "distinct (queue w)"
  then show ?thesis
    by (simp add: ResumeProceed resumeProceed_def proceed_fields distinct_tl
        split: option.splits executor.splits prod.splits)
qed

lemma run_distinct: "distinct (queue w) \<Longrightarrow> distinct (queue (run es w))"
  by (induction es arbitrary: w) (simp_all add: step_distinct)

lemma idle_no_progress:
  "currentActivation w = None \<Longrightarrow> tokenizerReady w = w \<and> resumeProceed w = w"
  by (simp add: tokenizerReady_def resumeProceed_def split: option.splits prod.splits)

lemma rebind_trace_outcome:
  "definedModes (run rebind_trace coordinator_example) = [] \<and>
   settledPromises (run rebind_trace coordinator_example) 0 = Some False \<and>
   settledPromises (run rebind_trace coordinator_example) 1 = None \<and>
   resolverCallbacks (run rebind_trace coordinator_example) 0 = None \<and>
   queue (run rebind_trace coordinator_example) = [] \<and>
   currentActivation (run rebind_trace coordinator_example) = None"
  by (simp add: rebind_trace_def coordinator_defs)

lemma rebind_trace_promises:
  "fst (safeUpdateCM 0 coordinator_example) = Inr 0 \<and>
   fst (safeUpdateCM 0 (run [SafeUpdateCM 0, SetOption 0 ''javascript'' ''monokai'']
          coordinator_example)) = Inr 1"
  by (simp add: coordinator_defs)

text \<open>
  C3. Editor 0 asks for a rebind, its theme is changed, and it asks again before the
  tokenizer of the first attempt has arrived. The second call cancels the attempt,
  resolves the first promise to \<^verbatim>\<open>false\<close>, re-queues the editor and registers the
  resolver of the second promise. When the canceled attempt ends, the resumed
  \<^verbatim>\<open>proceed\<close> deletes the resolver now registered for the editor, which is the second
  one, and shifts the re-queued editor off the queue. No mode is defined, the second
  promise is not resolved and no resolver is left for it, and the coordinator is idle
  with an empty queue: neither the arrival of a tokenizer nor a resumption of
  \<^verbatim>\<open>proceed\<close> changes anything any more.
\<close>

theorem rebind_second_request_dropped:
  "fst (safeUpdateCM 0 coordinator_example) = Inr 0 \<and>
   fst (safeUpdateCM 0 (run [SafeUpdateCM 0, SetOption 0 ''javascript'' ''monokai'']
          coordinator_example)) = Inr 1 \<and>
   definedModes (run rebind_trace coordinator_example) = [] \<and>
   settledPromises (run rebind_trace coordinator_example) 0 = Some False \<and>
   settledPromises (run rebind_trace coordinator_example) 1 = None \<and>
   resolverCallbacks (run rebind_trace coordinator_example) 0 = None \<and>
   queue (run rebind_trace coordinator_example) = [] \<and>
   currentActivation (run rebind_trace coordinator_example) = None \<and>
   tokenizerReady (run rebind_trace coordinator_example) = run rebind_trace coordinator_example \<and>
   resumeProceed (run rebind_trace coordinator_example) = run rebind_trace coordinator_example"
  using rebind_trace_outcome rebind_trace_promises
    idle_no_progress [of "run rebind_trace coordinator_example"]
  by blast

text \<open>
  An editor that is queued behind another one gets a new promise on every call (1, then
  2 for editor 1) and stays queued once; the earlier promise is not shared and is never
  resolved.
\<close>

lemma queued_twice_promises:
  "fst (safeUpdateCM 1 (run [SafeUpdateCM 0] coordinator_example)) = Inr 1 \<and>
   fst (safeUpdateCM 1 (run [SafeUpdateCM 0, SafeUpdateCM 1] coordinator_example)) = Inr 2 \<and>
   queue (run [SafeUpdateCM 0, SafeUpdateCM 1, SafeUpdateCM 1] coordinator_example) = [0, 1] \<and>
   resolverCallbacks (run [SafeUpdateCM 0, SafeUpdateCM 1, SafeUpdateCM 1] coordinator_example) 1
     = Some 2"
  by (simp add: coordinator_defs)

lemma queued_twice_first_promise:
  "settledPromises (run [SafeUpdateCM 0, SafeUpdateCM 1, SafeUpdateCM 1, TokenizerReady,
        ResumeProceed, TokenizerReady, ResumeProceed] coordinator_example) 1 = None"
  by (simp add: coordinator_defs)

lemma queued_twice_second_promise:
  "settledPromises (run [SafeUpdateCM 0, SafeUpdateCM 1, SafeUpdateCM 1, TokenizerReady,
        ResumeProceed, TokenizerReady, ResumeProceed] coordinator_example) 2 = Some False"
  by (simp add: coordinator_defs)

text \<open>
  Editor 0 asks, editor 1 asks, editor 0 asks again: when the canceled attempt ends, the
  resumed \<^verbatim>\<open>proceed\<close> shifts editor 1 off the queue and deletes the resolver of editor 0,
  so the next attempt for editor 0 finds no resolver and \<^verbatim>\<open>proceed\<close> ends with a type
  failure, \<^verbatim>\<open>currentActivation\<close> still set. From then on a call for editor 0 throws, and
  the request of editor 1 is neither applied nor resolved.
\<close>

lemma coordinator_wedged:
  "queue (run wedge_trace coordinator_example) = [0] \<and>
   resolverCallbacks (run wedge_trace coordinator_example) 0 = None \<and>
   currentActivation (run wedge_trace coordinator_example)
     = Some \<lparr>progress = Settled False, canceled = False\<rparr> \<and>
   suspendedProceed (run wedge_trace coordinator_example) = None \<and>
   settledPromises (run wedge_trace coordinator_example) 1 = None \<and>
   definedModes (run wedge_trace coordinator_example) = []"
  by (simp add: wedge_trace_def coordinator_defs)

lemma coordinator_wedged_throws:
  "fst (safeUpdateCM 0 (run wedge_trace coordinator_example)) = Inl RuntimeTypeError"
  using coordinator_wedged
  by (simp add: safeUpdateCM_throws activeHead_def)

end
